theory Spec2Isabelle
  imports Complex_Main
begin

section \<open>The OpenTracing span adapter of ddtrace (ddtrace/opentracer/span.py)\<close>

text \<open>
  The module adapts the OpenTracing span interface onto a Datadog span. The classes
  \<open>SpanLogRecord\<close>, \<open>SpanLog\<close> and \<open>Span\<close> are defined in the module itself; the
  classes \<open>SpanContext\<close> and \<open>DatadogSpan\<close> and the constant tables \<open>OTTags\<close> and
  \<open>errors\<close> are imported from sibling modules.
\<close>

subsection \<open>Python values\<close>

text \<open>
  Tag values, log values, index keys and exception information are dynamically typed.
  \<open>PObj\<close> stands for any other object (an exception class, a traceback), named by a
  number.
\<close>

datatype pyval = PNone | PBool bool | PInt int | PStr string | PObj nat

text \<open>Truth value testing, as \<open>if exc_type:\<close> applies it.\<close>

fun truthy :: "pyval \<Rightarrow> bool" where
  "truthy PNone = False"
| "truthy (PBool b) = b"
| "truthy (PInt i) = (i \<noteq> 0)"
| "truthy (PStr s) = (s \<noteq> [])"
| "truthy (PObj n) = True"

datatype py_error = TypeError | IndexError

text \<open>What a method hands back: nothing (\<open>None\<close>) or the receiver (\<open>return self\<close>).\<close>

datatype py_ret = Ret_None | Ret_self

text \<open>
  A dict that the code iterates over (\<open>key_values.items()\<close>) is an association list in
  iteration order.
\<close>

type_synonym key_values = "(string \<times> pyval) list"

subsection \<open>SpanLogRecord and SpanLog\<close>

record SpanLogRecord =
  lr_record :: key_values
  lr_timestamp :: real

text \<open>
  \<open>self.timestamp = timestamp or time.time()\<close>: an omitted (\<open>None\<close>) or zero timestamp
  is falsy and replaced by the clock reading, which the model receives as \<open>now\<close>.
\<close>

definition SpanLogRecord_init :: "key_values \<Rightarrow> real option \<Rightarrow> real \<Rightarrow> SpanLogRecord" where
  "SpanLogRecord_init kvs timestamp now =
     \<lparr>lr_record = kvs,
      lr_timestamp = (case timestamp of None \<Rightarrow> now | Some t \<Rightarrow> if t = 0 then now else t)\<rparr>"

record SpanLog =
  records :: "SpanLogRecord list"

definition SpanLog_init :: SpanLog where
  "SpanLog_init = \<lparr>records = []\<rparr>"

definition add_record :: "key_values \<Rightarrow> real option \<Rightarrow> real \<Rightarrow> SpanLog \<Rightarrow> SpanLog" where
  "add_record kvs timestamp now lg =
     lg\<lparr>records := records lg @ [SpanLogRecord_init kvs timestamp now]\<rparr>"

definition SpanLog_len :: "SpanLog \<Rightarrow> nat" where
  "SpanLog_len lg = length (records lg)"

text \<open>
  \<open>self.records[key]\<close> on a Python list: an offset below zero counts from the end, and
  an offset outside the list raises \<open>IndexError\<close>.
\<close>

definition py_list_index :: "'a list \<Rightarrow> int \<Rightarrow> py_error + 'a" where
  "py_list_index xs i =
     (if 0 \<le> i \<and> i < int (length xs) then Inr (xs ! nat i)
      else if i < 0 \<and> - int (length xs) \<le> i then Inr (xs ! nat (int (length xs) + i))
      else Inl IndexError)"

text \<open>
  \<open>__getitem__\<close>: \<open>type(key) is int\<close> holds for an \<open>int\<close> only; a \<open>bool\<close>, a string
  and every other key raise \<open>TypeError\<close>.
\<close>

fun SpanLog_getitem :: "SpanLog \<Rightarrow> pyval \<Rightarrow> py_error + SpanLogRecord" where
  "SpanLog_getitem lg (PInt i) = py_list_index (records lg) i"
| "SpanLog_getitem lg key = Inl TypeError"

text \<open>A series of \<open>add_record\<close> calls, each with its arguments and its clock reading.\<close>

type_synonym log_call = "key_values \<times> real option \<times> real"

fun add_records :: "log_call list \<Rightarrow> SpanLog \<Rightarrow> SpanLog" where
  "add_records [] lg = lg"
| "add_records ((kvs, timestamp, now) # cs) lg = add_records cs (add_record kvs timestamp now lg)"

definition record_of_call :: "log_call \<Rightarrow> SpanLogRecord" where
  "record_of_call c = (case c of (kvs, timestamp, now) \<Rightarrow> SpanLogRecord_init kvs timestamp now)"

text \<open>Whether a key is an \<open>int\<close> in the sense of \<open>type(key) is int\<close>.\<close>

fun is_int_key :: "pyval \<Rightarrow> bool" where
  "is_int_key (PInt i) = True"
| "is_int_key key = False"

subsection \<open>Constant tables\<close>

text \<open>
  \<open>OTTags\<close> (module \<open>tags\<close>) and \<open>errors\<close> (module \<open>ddtrace.ext.errors\<close>) are tables of
  string constants defined outside this module. The functions below take them as
  parameters, so every result holds for whatever the tables contain.
\<close>

record OTTags =
  SPAN_TYPE :: string
  HTTP_URL :: string
  DB_STATEMENT :: string

record errors =
  ERROR_TYPE :: string
  ERROR_MSG :: string
  ERROR_STACK :: string

text \<open>
  Modelled from the spec: the module defining \<open>OTTags\<close> is not among the sources. The
  spec's tag-routing property names \<open>span.kind\<close> as the key of the span-type field and
  \<open>http.url\<close> as a key of the resource field; the third name follows the same
  convention. The table serves as a sample for evaluation only.
\<close>

definition sample_OTTags :: OTTags where
  "sample_OTTags = \<lparr>SPAN_TYPE = ''span.kind'', HTTP_URL = ''http.url'', DB_STATEMENT = ''db.statement''\<rparr>"

text \<open>
  Modelled from the spec: the module \<open>errors\<close> is not among the sources; the spec speaks
  of the error-type, error-message and error-stack tags without giving their names.
  The table serves as a sample for evaluation only.
\<close>

definition sample_errors :: errors where
  "sample_errors = \<lparr>ERROR_TYPE = ''error.type'', ERROR_MSG = ''error.msg'', ERROR_STACK = ''error.stack''\<rparr>"

text \<open>
  The keys that \<open>log_kv\<close> passes to \<open>set_tag\<close> are ordinary tag names when none of them
  is one of the three reserved keys.
\<close>

definition tables_ok :: "OTTags \<Rightarrow> errors \<Rightarrow> bool" where
  "tables_ok T E =
     (set [''error'', ERROR_TYPE E, ERROR_MSG E, ERROR_STACK E] \<inter>
      set [SPAN_TYPE T, HTTP_URL T, DB_STATEMENT T] = {})"

definition reserved_key :: "OTTags \<Rightarrow> string \<Rightarrow> bool" where
  "reserved_key T key = (key = SPAN_TYPE T \<or> key = HTTP_URL T \<or> key = DB_STATEMENT T)"

subsection \<open>The delegate: DatadogSpan\<close>

text \<open>
  Modelled from the spec: class \<open>DatadogSpan\<close> (\<open>ddtrace.span.Span\<close>) is not among the
  sources. The spec requires of it structural fields for the span type, the resource
  name and the error flag, a name that can be reassigned, a context handle, and the
  operations set-tag, finish, exception-info recorder and scoped exit. The delegate is
  represented by the attributes that the adapter assigns (\<open>name\<close>, \<open>span_type\<close>,
  \<open>resource\<close>, \<open>error\<close>) or reads (\<open>context\<close>) and by the sequence of method
  invocations it has received from the adapter, oldest first. What the delegate does
  inside a method is not described here; invocations are assumed to return normally.
\<close>

datatype dd_call =
    Call_set_tag string pyval
  | Call_finish "real option"
  | Call_set_exc_info pyval pyval pyval
  | Call_exit pyval pyval pyval

record DatadogSpan =
  dd_tracer :: nat
  dd_name :: string
  dd_span_type :: pyval
  dd_resource :: pyval
  dd_error :: int
  dd_context :: nat
  dd_calls :: "dd_call list"

definition DatadogSpan_new :: "nat \<Rightarrow> string \<Rightarrow> nat \<Rightarrow> DatadogSpan" where
  "DatadogSpan_new tr operation_name ctx =
     \<lparr>dd_tracer = tr, dd_name = operation_name, dd_span_type = PNone, dd_resource = PNone,
      dd_error = 0, dd_context = ctx, dd_calls = []\<rparr>"

definition dd_invoke :: "dd_call \<Rightarrow> DatadogSpan \<Rightarrow> DatadogSpan" where
  "dd_invoke c d = d\<lparr>dd_calls := dd_calls d @ [c]\<rparr>"

fun is_finish_call :: "dd_call \<Rightarrow> bool" where
  "is_finish_call (Call_finish t) = True"
| "is_finish_call c = False"

definition count_finish :: "DatadogSpan \<Rightarrow> nat" where
  "count_finish d = length (filter is_finish_call (dd_calls d))"

subsection \<open>SpanContext objects and the store\<close>

text \<open>
  A \<open>SpanContext\<close> is an object that several references may share, so the objects live
  in a store and are named by their position in it; a new object is placed at the end.
  \<open>dd_context_count\<close> counts the tracer-side contexts created so far; such a context
  is named by its number.
\<close>

record SpanContext =
  ctx_dd_context :: nat
  ctx_baggage :: "string \<rightharpoonup> pyval"

record store =
  contexts :: "SpanContext list"
  dd_context_count :: nat

text \<open>
  \<open>Bad_reference\<close>: a reference that names no object of the store. No Python execution
  gets there; the branch keeps the functions total. \<open>Blocked\<close>: the call waits for a
  lock that is held and never returns.
\<close>

datatype failure = Bad_reference | Blocked

definition ctx_at :: "store \<Rightarrow> nat \<Rightarrow> SpanContext option" where
  "ctx_at h a = (if a < length (contexts h) then Some (contexts h ! a) else None)"

text \<open>
  Modelled from the spec: the constructor of \<open>SpanContext\<close> (module \<open>span_context\<close>) is
  not among the sources. Per the spec a context built from a parent carries the parent's
  underlying context reference and a copy of the given baggage, and a context built from
  nothing is fresh and empty. The result is the reference to the new object.
\<close>

definition SpanContext_new :: "nat option \<Rightarrow> (string \<rightharpoonup> pyval) option \<Rightarrow> store \<Rightarrow> nat \<times> store" where
  "SpanContext_new ddcontext baggage h =
     (length (contexts h),
      h\<lparr>contexts := contexts h @
           [\<lparr>ctx_dd_context = (case ddcontext of Some d \<Rightarrow> d | None \<Rightarrow> dd_context_count h),
             ctx_baggage = (case baggage of Some b \<Rightarrow> b | None \<Rightarrow> Map.empty)\<rparr>],
         dd_context_count := (case ddcontext of Some d \<Rightarrow> dd_context_count h
                              | None \<Rightarrow> Suc (dd_context_count h))\<rparr>)"

text \<open>
  Modelled from the spec: \<open>SpanContext.with_baggage_item\<close> is not among the sources. Per
  the spec it returns a new context with the same underlying reference and the
  receiver's baggage with \<open>key\<close> set to \<open>value\<close>. The receiver is given by reference.
\<close>

definition with_baggage_item :: "nat \<Rightarrow> string \<Rightarrow> pyval \<Rightarrow> store \<Rightarrow> failure + (nat \<times> store)" where
  "with_baggage_item c key val h =
     (case ctx_at h c of
        None \<Rightarrow> Inl Bad_reference
      | Some ctx \<Rightarrow>
          Inr (SpanContext_new (Some (ctx_dd_context ctx)) (Some ((ctx_baggage ctx)(key \<mapsto> val))) h))"

text \<open>
  Modelled from the spec: \<open>SpanContext.get_baggage_item\<close> is not among the sources. Per
  the spec it returns the value stored for the key, or the not-found value \<open>None\<close>.
\<close>

definition ctx_get_baggage_item :: "SpanContext \<Rightarrow> string \<Rightarrow> pyval" where
  "ctx_get_baggage_item ctx key = (case ctx_baggage ctx key of None \<Rightarrow> PNone | Some v \<Rightarrow> v)"

subsection \<open>Span\<close>

record Tracer =
  tr_dd_tracer :: nat

text \<open>
  \<open>context_ref\<close> is the attribute \<open>_context\<close> (read through the property \<open>context\<close>),
  \<open>span_log\<close> the attribute \<open>log\<close>, \<open>dd_span\<close> the attribute \<open>_dd_span\<close>; \<open>lock\<close>
  tells whether the span's \<open>threading.Lock\<close> is held.
\<close>

record Span =
  tracer :: Tracer
  context_ref :: nat
  span_log :: SpanLog
  finished :: bool
  lock :: bool
  dd_span :: DatadogSpan

definition Span_init :: "Tracer \<Rightarrow> nat option \<Rightarrow> string \<Rightarrow> store \<Rightarrow> failure + (Span \<times> store)" where
  "Span_init tr context operation_name h =
     (case (case context of
              Some p \<Rightarrow>
                (case ctx_at h p of
                   None \<Rightarrow> Inl Bad_reference
                 | Some pc \<Rightarrow> Inr (SpanContext_new (Some (ctx_dd_context pc)) (Some (ctx_baggage pc)) h))
            | None \<Rightarrow> Inr (SpanContext_new None None h)) of
        Inl e \<Rightarrow> Inl e
      | Inr (c, h') \<Rightarrow>
          (case ctx_at h' c of
             None \<Rightarrow> Inl Bad_reference
           | Some ctx \<Rightarrow>
               Inr (\<lparr>tracer = tr, context_ref = c, span_log = SpanLog_init, finished = False,
                     lock = False,
                     dd_span = DatadogSpan_new (tr_dd_tracer tr) operation_name (ctx_dd_context ctx)\<rparr>,
                    h')))"

definition finish :: "real option \<Rightarrow> Span \<Rightarrow> Span" where
  "finish finish_time s =
     (if finished s then s
      else s\<lparr>dd_span := dd_invoke (Call_finish finish_time) (dd_span s), finished := True\<rparr>)"

definition set_tag :: "OTTags \<Rightarrow> string \<Rightarrow> pyval \<Rightarrow> Span \<Rightarrow> Span" where
  "set_tag T key val s =
     (if key = SPAN_TYPE T then s\<lparr>dd_span := (dd_span s)\<lparr>dd_span_type := val\<rparr>\<rparr>
      else if key = HTTP_URL T \<or> key = DB_STATEMENT T then
        s\<lparr>dd_span := (dd_span s)\<lparr>dd_resource := val\<rparr>\<rparr>
      else s\<lparr>dd_span := dd_invoke (Call_set_tag key val) (dd_span s)\<rparr>)"

text \<open>
  \<open>set_baggage_item\<close>: line 92 builds the new context from the current one, line 93
  mirrors the pair through \<open>set_tag\<close>, lines 94 and 95 take the lock, assign the
  reference and release the lock on leaving the \<open>with\<close> block.
\<close>

definition set_baggage_item ::
  "OTTags \<Rightarrow> string \<Rightarrow> pyval \<Rightarrow> Span \<times> store \<Rightarrow> failure + (py_ret \<times> Span \<times> store)" where
  "set_baggage_item T key val sh =
     (case sh of (s, h) \<Rightarrow>
        (case with_baggage_item (context_ref s) key val h of
           Inl e \<Rightarrow> Inl e
         | Inr (new_ctx, h') \<Rightarrow>
             (let s1 = set_tag T key val s in
              if lock s1 then Inl Blocked
              else Inr (Ret_self, s1\<lparr>lock := True, context_ref := new_ctx, lock := False\<rparr>, h'))))"

definition get_baggage_item :: "string \<Rightarrow> Span \<times> store \<Rightarrow> failure + pyval" where
  "get_baggage_item key sh =
     (case sh of (s, h) \<Rightarrow>
        (case ctx_at h (context_ref s) of
           None \<Rightarrow> Inl Bad_reference
         | Some ctx \<Rightarrow> Inr (ctx_get_baggage_item ctx key)))"

definition set_operation_name :: "string \<Rightarrow> Span \<Rightarrow> Span" where
  "set_operation_name operation_name s = s\<lparr>dd_span := (dd_span s)\<lparr>dd_name := operation_name\<rparr>\<rparr>"

text \<open>The body of the loop of \<open>log_kv\<close>, for one pair of the mapping.\<close>

definition log_kv_item :: "OTTags \<Rightarrow> errors \<Rightarrow> Span \<Rightarrow> string \<times> pyval \<Rightarrow> Span" where
  "log_kv_item T E s kv =
     (case kv of (key, val) \<Rightarrow>
        if key = ''event'' \<and> val = PStr ''error'' then
          set_tag T ''error'' (PInt 1) (s\<lparr>dd_span := (dd_span s)\<lparr>dd_error := 1\<rparr>\<rparr>)
        else if key = ''error'' \<or> key = ''error.object'' then set_tag T (ERROR_TYPE E) val s
        else if key = ''message'' then set_tag T (ERROR_MSG E) val s
        else if key = ''stack'' then set_tag T (ERROR_STACK E) val s
        else s)"

definition log_kv ::
  "OTTags \<Rightarrow> errors \<Rightarrow> key_values \<Rightarrow> real option \<Rightarrow> real \<Rightarrow> Span \<Rightarrow> py_ret \<times> Span" where
  "log_kv T E kvs timestamp now s =
     (Ret_self,
      foldl (log_kv_item T E) (s\<lparr>span_log := add_record kvs timestamp now (span_log s)\<rparr>) kvs)"

definition Span_enter :: "Span \<Rightarrow> py_ret \<times> Span" where
  "Span_enter s = (Ret_self, s)"

definition Span_exit :: "pyval \<Rightarrow> pyval \<Rightarrow> pyval \<Rightarrow> Span \<Rightarrow> Span" where
  "Span_exit exc_type exc_val exc_tb s =
     (let s1 = (if truthy exc_type
                then s\<lparr>dd_span := dd_invoke (Call_set_exc_info exc_type exc_val exc_tb) (dd_span s)\<rparr>
                else s);
          s2 = s1\<lparr>dd_span := dd_invoke (Call_exit exc_type exc_val exc_tb) (dd_span s1)\<rparr>
      in finish None s2)"

subsection \<open>Sequences of calls on one span\<close>

fun finish_all :: "real option list \<Rightarrow> Span \<Rightarrow> Span" where
  "finish_all [] s = s"
| "finish_all (t # ts) s = finish_all ts (finish t s)"

datatype span_op =
    Op_finish "real option"
  | Op_set_tag string pyval
  | Op_log_kv key_values "real option" real
  | Op_set_baggage_item string pyval
  | Op_set_operation_name string
  | Op_exit pyval pyval pyval

fun call :: "OTTags \<Rightarrow> errors \<Rightarrow> span_op \<Rightarrow> Span \<times> store \<Rightarrow> failure + (Span \<times> store)" where
  "call T E (Op_finish t) (s, h) = Inr (finish t s, h)"
| "call T E (Op_set_tag key val) (s, h) = Inr (set_tag T key val s, h)"
| "call T E (Op_log_kv kvs timestamp now) (s, h) = Inr (snd (log_kv T E kvs timestamp now s), h)"
| "call T E (Op_set_baggage_item key val) (s, h) =
     (case set_baggage_item T key val (s, h) of Inl e \<Rightarrow> Inl e | Inr (r, s', h') \<Rightarrow> Inr (s', h'))"
| "call T E (Op_set_operation_name n) (s, h) = Inr (set_operation_name n s, h)"
| "call T E (Op_exit exc_type exc_val exc_tb) (s, h) = Inr (Span_exit exc_type exc_val exc_tb s, h)"

fun calls :: "OTTags \<Rightarrow> errors \<Rightarrow> span_op list \<Rightarrow> Span \<times> store \<Rightarrow> failure + (Span \<times> store)" where
  "calls T E [] sh = Inr sh"
| "calls T E (c # cs) sh = (case call T E c sh of Inl e \<Rightarrow> Inl e | Inr sh' \<Rightarrow> calls T E cs sh')"

text \<open>
  The adapter has asked the delegate to finish once if the latch is set and never if it
  is not.
\<close>

definition lifecycle_ok :: "Span \<Rightarrow> bool" where
  "lifecycle_ok s = (count_finish (dd_span s) = (if finished s then 1 else 0))"

text \<open>
  The calls that can set the latch, and a span with its latch forced to a value.
\<close>

fun finishes :: "span_op \<Rightarrow> bool" where
  "finishes (Op_finish t) = True"
| "finishes (Op_exit exc_type exc_val exc_tb) = True"
| "finishes c = False"

fun is_exit :: "span_op \<Rightarrow> bool" where
  "is_exit (Op_exit exc_type exc_val exc_tb) = True"
| "is_exit c = False"

definition set_latch :: "bool \<Rightarrow> Span \<times> store \<Rightarrow> Span \<times> store" where
  "set_latch b sh = (case sh of (s, h) \<Rightarrow> (s\<lparr>finished := b\<rparr>, h))"

subsection \<open>The translation of log fields as the spec words it\<close>

text \<open>
  The rules of the spec for one pair of a log record, written on the delegate itself:
  each pair matches at most one rule, and a rule sets the error flag and tags.
\<close>

datatype log_rule = Rule_error_event | Rule_error_type | Rule_message | Rule_stack | Rule_ignore

definition spec_log_rule :: "string \<times> pyval \<Rightarrow> log_rule" where
  "spec_log_rule kv =
     (if fst kv = ''event'' \<and> snd kv = PStr ''error'' then Rule_error_event
      else if fst kv = ''error'' \<or> fst kv = ''error.object'' then Rule_error_type
      else if fst kv = ''message'' then Rule_message
      else if fst kv = ''stack'' then Rule_stack
      else Rule_ignore)"

fun spec_apply_rule :: "errors \<Rightarrow> log_rule \<Rightarrow> pyval \<Rightarrow> DatadogSpan \<Rightarrow> DatadogSpan" where
  "spec_apply_rule E Rule_error_event val d =
     dd_invoke (Call_set_tag ''error'' (PInt 1)) (d\<lparr>dd_error := 1\<rparr>)"
| "spec_apply_rule E Rule_error_type val d = dd_invoke (Call_set_tag (ERROR_TYPE E) val) d"
| "spec_apply_rule E Rule_message val d = dd_invoke (Call_set_tag (ERROR_MSG E) val) d"
| "spec_apply_rule E Rule_stack val d = dd_invoke (Call_set_tag (ERROR_STACK E) val) d"
| "spec_apply_rule E Rule_ignore val d = d"

definition spec_log_translate :: "errors \<Rightarrow> DatadogSpan \<Rightarrow> string \<times> pyval \<Rightarrow> DatadogSpan" where
  "spec_log_translate E d kv = spec_apply_rule E (spec_log_rule kv) (snd kv) d"

subsection \<open>Concurrent callers of set_baggage_item\<close>

text \<open>
  A thread inside \<open>set_baggage_item\<close> is at one of the statements of the method. Between
  two statements another thread may run; taking or releasing the lock is a step of
  its own. \<open>w_new_ctx\<close> is the local variable \<open>new_ctx\<close>.
\<close>

datatype writer_pc = At_line_92 | At_line_93 | At_line_94 | At_line_95 | At_release | Returned

record writer =
  w_pc :: writer_pc
  w_key :: string
  w_value :: pyval
  w_new_ctx :: nat

definition writer_start :: "string \<Rightarrow> pyval \<Rightarrow> writer" where
  "writer_start key val = \<lparr>w_pc = At_line_92, w_key = key, w_value = val, w_new_ctx = 0\<rparr>"

fun writer_step_at :: "OTTags \<Rightarrow> writer_pc \<Rightarrow> writer \<Rightarrow> Span \<Rightarrow> store \<Rightarrow> writer \<times> Span \<times> store" where
  "writer_step_at T At_line_92 w s h =
     (case with_baggage_item (context_ref s) (w_key w) (w_value w) h of
        Inl e \<Rightarrow> (w, s, h)
      | Inr (c, h') \<Rightarrow> (w\<lparr>w_pc := At_line_93, w_new_ctx := c\<rparr>, s, h'))"
| "writer_step_at T At_line_93 w s h = (w\<lparr>w_pc := At_line_94\<rparr>, set_tag T (w_key w) (w_value w) s, h)"
| "writer_step_at T At_line_94 w s h =
     (if lock s then (w, s, h) else (w\<lparr>w_pc := At_line_95\<rparr>, s\<lparr>lock := True\<rparr>, h))"
| "writer_step_at T At_line_95 w s h = (w\<lparr>w_pc := At_release\<rparr>, s\<lparr>context_ref := w_new_ctx w\<rparr>, h)"
| "writer_step_at T At_release w s h = (w\<lparr>w_pc := Returned\<rparr>, s\<lparr>lock := False\<rparr>, h)"
| "writer_step_at T Returned w s h = (w, s, h)"

definition writer_step :: "OTTags \<Rightarrow> writer \<Rightarrow> Span \<times> store \<Rightarrow> writer \<times> Span \<times> store" where
  "writer_step T w sh = (case sh of (s, h) \<Rightarrow> writer_step_at T (w_pc w) w s h)"

text \<open>
  A schedule names, step by step, the thread that runs next. A thread waiting for the
  lock, or one that has returned, stays where it is.
\<close>

fun run_schedule ::
  "OTTags \<Rightarrow> nat list \<Rightarrow> writer list \<times> Span \<times> store \<Rightarrow> writer list \<times> Span \<times> store" where
  "run_schedule T [] cfg = cfg"
| "run_schedule T (i # sched) (ws, s, h) =
     (if i < length ws then
        (case writer_step T (ws ! i) (s, h) of
           (w', s', h') \<Rightarrow> run_schedule T sched (ws[i := w'], s', h'))
      else run_schedule T sched (ws, s, h))"

subsection \<open>Sample states\<close>

definition empty_store :: store where
  "empty_store = \<lparr>contexts = [], dd_context_count = 0\<rparr>"

definition sample_tracer :: Tracer where
  "sample_tracer = \<lparr>tr_dd_tracer = 7\<rparr>"

text \<open>The span and the store that \<open>Span(tracer, None, 'op')\<close> yields in an empty store.\<close>

definition sample_store :: store where
  "sample_store = \<lparr>contexts = [\<lparr>ctx_dd_context = 0, ctx_baggage = Map.empty\<rparr>], dd_context_count = 1\<rparr>"

definition sample_span :: Span where
  "sample_span =
     \<lparr>tracer = sample_tracer, context_ref = 0, span_log = SpanLog_init, finished = False,
      lock = False, dd_span = DatadogSpan_new 7 ''op'' 0\<rparr>"

section \<open>Properties of SpanLog\<close>

lemma records_add_records:
  "records (add_records cs lg) = records lg @ map record_of_call cs"
  by (induction cs arbitrary: lg) (auto simp: add_record_def record_of_call_def)

lemma getitem_non_int: "\<not> is_int_key key \<Longrightarrow> SpanLog_getitem lg key = Inl TypeError"
  by (cases key) simp_all

text \<open>
  Claim C7. A log built by appending is an ordered sequence: its length is the number of
  records appended; an integer offset \<open>i\<close> with \<open>0 \<le> i < n\<close> yields the \<open>i\<close>-th record
  appended and an offset \<open>-n \<le> i < 0\<close> the record \<open>n + i\<close>, so that offset \<open>0\<close> is the
  first and offset \<open>-1\<close> the last record; a key that is not an \<open>int\<close> raises
  \<open>TypeError\<close>, the module's error for an invalid index kind.
\<close>

theorem SpanLog_ordered_append_only:
  "SpanLog_len (add_records cs SpanLog_init) = length cs \<and>
   (\<forall>i. 0 \<le> i \<and> i < int (length cs) \<longrightarrow>
      SpanLog_getitem (add_records cs SpanLog_init) (PInt i) = Inr (record_of_call (cs ! nat i))) \<and>
   (\<forall>i. - int (length cs) \<le> i \<and> i < 0 \<longrightarrow>
      SpanLog_getitem (add_records cs SpanLog_init) (PInt i) =
        Inr (record_of_call (cs ! nat (int (length cs) + i)))) \<and>
   (cs \<noteq> [] \<longrightarrow>
      SpanLog_getitem (add_records cs SpanLog_init) (PInt 0) = Inr (record_of_call (hd cs)) \<and>
      SpanLog_getitem (add_records cs SpanLog_init) (PInt (- 1)) = Inr (record_of_call (last cs))) \<and>
   (\<forall>key. \<not> is_int_key key \<longrightarrow>
      SpanLog_getitem (add_records cs SpanLog_init) key = Inl TypeError)"
proof -
  let ?lg = "add_records cs SpanLog_init"
  have recs: "records ?lg = map record_of_call cs"
    by (simp add: records_add_records SpanLog_init_def)
  have len: "SpanLog_len ?lg = length cs"
    by (simp add: SpanLog_len_def recs)
  have pos: "SpanLog_getitem ?lg (PInt i) = Inr (record_of_call (cs ! nat i))"
    if "0 \<le> i \<and> i < int (length cs)" for i
  proof -
    from that have "nat i < length cs" by linarith
    with that show ?thesis by (simp add: py_list_index_def recs)
  qed
  have neg: "SpanLog_getitem ?lg (PInt i) = Inr (record_of_call (cs ! nat (int (length cs) + i)))"
    if "- int (length cs) \<le> i \<and> i < 0" for i
  proof -
    from that have "nat (int (length cs) + i) < length cs" by linarith
    with that show ?thesis by (simp add: py_list_index_def recs)
  qed
  have ends: "SpanLog_getitem ?lg (PInt 0) = Inr (record_of_call (hd cs)) \<and>
      SpanLog_getitem ?lg (PInt (- 1)) = Inr (record_of_call (last cs))" if "cs \<noteq> []"
  proof -
    from that have l: "0 < length cs" by simp
    then have first: "SpanLog_getitem ?lg (PInt 0) = Inr (record_of_call (cs ! 0))"
      using pos [of 0] by simp
    have n: "nat (int (length cs) + (- 1)) = length cs - 1" by linarith
    from l have "- int (length cs) \<le> - 1 \<and> (- 1 :: int) < 0" by linarith
    then have "SpanLog_getitem ?lg (PInt (- 1)) = Inr (record_of_call (cs ! (length cs - 1)))"
      using neg [of "- 1"] n by metis
    with first that show ?thesis
      by (simp add: hd_conv_nth last_conv_nth)
  qed
  from len pos neg ends getitem_non_int show ?thesis by blast
qed

theorem SpanLog_ordered_append_only_witness:
  "SpanLog_len (add_records [([(''a'', PInt 1)], None, 5), ([], Some 2, 6), ([(''c'', PStr ''x'')], Some 0, 7)]
       SpanLog_init) = 3 \<and>
   SpanLog_getitem (add_records [([(''a'', PInt 1)], None, 5), ([], Some 2, 6), ([(''c'', PStr ''x'')], Some 0, 7)]
       SpanLog_init) (PInt 0) = Inr \<lparr>lr_record = [(''a'', PInt 1)], lr_timestamp = 5\<rparr> \<and>
   SpanLog_getitem (add_records [([(''a'', PInt 1)], None, 5), ([], Some 2, 6), ([(''c'', PStr ''x'')], Some 0, 7)]
       SpanLog_init) (PInt (- 1)) = Inr \<lparr>lr_record = [(''c'', PStr ''x'')], lr_timestamp = 7\<rparr> \<and>
   SpanLog_getitem (add_records [([(''a'', PInt 1)], None, 5), ([], Some 2, 6), ([(''c'', PStr ''x'')], Some 0, 7)]
       SpanLog_init) (PInt 1) = Inr \<lparr>lr_record = [], lr_timestamp = 2\<rparr> \<and>
   SpanLog_getitem (add_records [([(''a'', PInt 1)], None, 5), ([], Some 2, 6), ([(''c'', PStr ''x'')], Some 0, 7)]
       SpanLog_init) (PStr ''x'') = Inl TypeError"
  using SpanLog_ordered_append_only
    [of "[([(''a'', PInt 1)], None, 5), ([], Some 2, 6), ([(''c'', PStr ''x'')], Some 0, 7)]"]
  by (simp add: record_of_call_def SpanLogRecord_init_def)

section \<open>Properties of Span\<close>

lemma Span_init_sample:
  "Span_init sample_tracer None ''op'' empty_store = Inr (sample_span, sample_store)"
  by (simp add: Span_init_def SpanContext_new_def empty_store_def ctx_at_def sample_span_def
      sample_store_def sample_tracer_def)

lemma set_tag_frame:
  "tracer (set_tag T key val s) = tracer s \<and> context_ref (set_tag T key val s) = context_ref s \<and>
   span_log (set_tag T key val s) = span_log s \<and> finished (set_tag T key val s) = finished s \<and>
   lock (set_tag T key val s) = lock s"
  by (simp add: set_tag_def)

text \<open>
  Claim C2. With three distinct reserved keys, \<open>set_tag\<close> writes the value of the
  span-type key to the delegate's span-type field and the value of the HTTP-URL key or
  of the database-statement key to its resource field, in both cases without invoking
  the delegate's set-tag; for every other key it invokes the delegate's set-tag with
  the key and the value and assigns no field.
\<close>

theorem set_tag_routing:
  assumes "distinct [SPAN_TYPE T, HTTP_URL T, DB_STATEMENT T]"
  shows "set_tag T (SPAN_TYPE T) val s = s\<lparr>dd_span := (dd_span s)\<lparr>dd_span_type := val\<rparr>\<rparr> \<and>
         set_tag T (HTTP_URL T) val s = s\<lparr>dd_span := (dd_span s)\<lparr>dd_resource := val\<rparr>\<rparr> \<and>
         set_tag T (DB_STATEMENT T) val s = s\<lparr>dd_span := (dd_span s)\<lparr>dd_resource := val\<rparr>\<rparr> \<and>
         (\<not> reserved_key T key \<longrightarrow>
            set_tag T key val s =
              s\<lparr>dd_span := (dd_span s)\<lparr>dd_calls := dd_calls (dd_span s) @ [Call_set_tag key val]\<rparr>\<rparr>)"
  using assms by (auto simp: set_tag_def reserved_key_def dd_invoke_def)

theorem set_tag_routing_witness:
  "distinct [SPAN_TYPE sample_OTTags, HTTP_URL sample_OTTags, DB_STATEMENT sample_OTTags] \<and>
   dd_span_type (dd_span (set_tag sample_OTTags ''span.kind'' (PStr ''client'') sample_span)) = PStr ''client'' \<and>
   dd_calls (dd_span (set_tag sample_OTTags ''span.kind'' (PStr ''client'') sample_span)) = [] \<and>
   dd_resource (dd_span (set_tag sample_OTTags ''http.url'' (PStr ''http://x'') sample_span)) = PStr ''http://x'' \<and>
   dd_calls (dd_span (set_tag sample_OTTags ''http.url'' (PStr ''http://x'') sample_span)) = [] \<and>
   \<not> reserved_key sample_OTTags ''custom.key'' \<and>
   dd_calls (dd_span (set_tag sample_OTTags ''custom.key'' (PInt 42) sample_span)) =
     [Call_set_tag ''custom.key'' (PInt 42)]"
proof -
  have d: "distinct [SPAN_TYPE sample_OTTags, HTTP_URL sample_OTTags, DB_STATEMENT sample_OTTags]"
    by (simp add: sample_OTTags_def)
  have r: "\<not> reserved_key sample_OTTags ''custom.key''"
    by (simp add: sample_OTTags_def reserved_key_def)
  from set_tag_routing [OF d, of "PStr ''client''" sample_span]
       set_tag_routing [OF d, of "PStr ''http://x''" sample_span]
       set_tag_routing [OF d, of "PInt 42" sample_span "''custom.key''"] d r
  show ?thesis by (simp add: sample_OTTags_def sample_span_def DatadogSpan_new_def)
qed

lemma finish_all_finished: "finished s \<Longrightarrow> finish_all ts s = s"
  by (induction ts) (simp_all add: finish_def)

lemma count_finish_finish:
  "count_finish (dd_span (finish t s)) = count_finish (dd_span s) + (if finished s then 0 else 1)"
  by (simp add: finish_def count_finish_def dd_invoke_def)

lemma finished_finish: "finished (finish t s)"
  by (simp add: finish_def)

text \<open>
  Claim C1. \<open>finish\<close> is idempotent: on a span whose latch is set, a call of \<open>finish\<close>
  with any end time, and any series of such calls, returns the span as it is; a second
  \<open>finish\<close> after a first changes nothing; and a series of \<open>finish\<close> calls invokes the
  delegate's finish once if the span was not finished and the series is not empty, and
  not at all otherwise, hence at most once.
\<close>

theorem finish_idempotent:
  "(finished s \<longrightarrow> finish t s = s \<and> finish_all ts s = s) \<and>
   finish t (finish t' s) = finish t' s \<and>
   count_finish (dd_span (finish_all ts s)) =
     count_finish (dd_span s) + (if finished s \<or> ts = [] then 0 else 1) \<and>
   count_finish (dd_span (finish_all ts s)) \<le> count_finish (dd_span s) + 1"
proof -
  have a: "finished s \<longrightarrow> finish t s = s \<and> finish_all ts s = s"
    by (simp add: finish_all_finished) (simp add: finish_def)
  have b: "finish t (finish t' s) = finish t' s"
    by (simp add: finish_def)
  have c: "count_finish (dd_span (finish_all ts s)) =
     count_finish (dd_span s) + (if finished s \<or> ts = [] then 0 else 1)"
  proof (cases ts)
    case Nil
    then show ?thesis by simp
  next
    case (Cons u us)
    then show ?thesis
      by (simp add: finish_all_finished [OF finished_finish] count_finish_finish)
  qed
  from a b c show ?thesis by simp
qed

theorem finish_idempotent_witness:
  "finished (finish (Some 5) sample_span) \<and>
   finish None (finish (Some 5) sample_span) = finish (Some 5) sample_span \<and>
   finish_all [None, Some 9] (finish (Some 5) sample_span) = finish (Some 5) sample_span \<and>
   dd_calls (dd_span (finish (Some 5) sample_span)) = [Call_finish (Some 5)] \<and>
   count_finish (dd_span (finish_all [Some 5, None, Some 9] sample_span)) = 1"
proof -
  have f: "finished (finish (Some 5) sample_span)"
    by (simp add: finish_def)
  have c: "dd_calls (dd_span (finish (Some 5) sample_span)) = [Call_finish (Some 5)]"
    by (simp add: finish_def sample_span_def DatadogSpan_new_def dd_invoke_def)
  have z: "count_finish (dd_span sample_span) = 0"
    by (simp add: count_finish_def sample_span_def DatadogSpan_new_def)
  have u: "\<not> finished sample_span"
    by (simp add: sample_span_def)
  have again: "finish None (finish (Some 5) sample_span) = finish (Some 5) sample_span \<and>
      finish_all [None, Some 9] (finish (Some 5) sample_span) = finish (Some 5) sample_span"
    using finish_idempotent [of "finish (Some 5) sample_span" None "[None, Some 9]" None] f
    by blast
  have "count_finish (dd_span (finish_all [Some 5, None, Some 9] sample_span)) =
      count_finish (dd_span sample_span) +
      (if finished sample_span \<or> [Some 5, None, Some (9::real)] = [] then 0 else 1)"
    using finish_idempotent [of sample_span None "[Some 5, None, Some 9]" None] by blast
  then have once: "count_finish (dd_span (finish_all [Some 5, None, Some 9] sample_span)) = 1"
    using z u by simp
  from f again c once show ?thesis by blast
qed

lemma log_kv_item_frame:
  "tracer (log_kv_item T E s kv) = tracer s \<and> context_ref (log_kv_item T E s kv) = context_ref s \<and>
   span_log (log_kv_item T E s kv) = span_log s \<and> finished (log_kv_item T E s kv) = finished s \<and>
   lock (log_kv_item T E s kv) = lock s"
  by (cases kv) (simp add: log_kv_item_def set_tag_def)

lemma log_kv_loop_frame:
  "tracer (foldl (log_kv_item T E) s kvs) = tracer s \<and>
   context_ref (foldl (log_kv_item T E) s kvs) = context_ref s \<and>
   span_log (foldl (log_kv_item T E) s kvs) = span_log s \<and>
   finished (foldl (log_kv_item T E) s kvs) = finished s \<and>
   lock (foldl (log_kv_item T E) s kvs) = lock s"
  by (induction kvs arbitrary: s) (simp_all add: log_kv_item_frame)

lemma set_tag_plain:
  "\<not> reserved_key T key \<Longrightarrow>
   set_tag T key val s = s\<lparr>dd_span := dd_invoke (Call_set_tag key val) (dd_span s)\<rparr>"
  by (simp add: set_tag_def reserved_key_def)

lemma tables_ok_plain:
  assumes "tables_ok T E"
  shows "\<not> reserved_key T ''error''" and "\<not> reserved_key T (ERROR_TYPE E)"
    and "\<not> reserved_key T (ERROR_MSG E)" and "\<not> reserved_key T (ERROR_STACK E)"
  using assms by (auto simp: tables_ok_def reserved_key_def)

lemma log_kv_item_spec:
  assumes "tables_ok T E"
  shows "dd_span (log_kv_item T E s kv) = spec_log_translate E (dd_span s) kv"
  using tables_ok_plain [OF assms]
  by (cases kv) (simp add: log_kv_item_def spec_log_translate_def spec_log_rule_def set_tag_plain)

lemma log_kv_loop_spec:
  assumes "tables_ok T E"
  shows "dd_span (foldl (log_kv_item T E) s kvs) = foldl (spec_log_translate E) (dd_span s) kvs"
  by (induction kvs arbitrary: s) (simp_all add: log_kv_item_spec [OF assms])

text \<open>
  Claim C3. Provided the keys that \<open>log_kv\<close> passes to \<open>set_tag\<close> (\<open>error\<close> and the
  three names of the table \<open>errors\<close>) are not reserved keys of \<open>OTTags\<close>: \<open>log_kv\<close>
  returns the span itself; it appends one record holding the whole mapping, whatever
  the mapping contains; the loop then treats the pairs one after the other, and its
  effect on the delegate is that of the spec's rule table applied pair by pair. For one
  pair: \<open>event\<close> with value \<open>error\<close> sets the error flag to 1 and the tag \<open>error\<close> to 1;
  \<open>error\<close> and \<open>error.object\<close> set the error-type tag to the value; \<open>message\<close> sets
  the error-message tag; \<open>stack\<close> sets the error-stack tag; any other pair, also
  \<open>event\<close> with another value, changes nothing.
\<close>

theorem log_kv_translation:
  assumes "tables_ok T E"
  shows "fst (log_kv T E kvs timestamp now s) = Ret_self \<and>
    records (span_log (snd (log_kv T E kvs timestamp now s))) =
      records (span_log s) @ [SpanLogRecord_init kvs timestamp now] \<and>
    lr_record (SpanLogRecord_init kvs timestamp now) = kvs \<and>
    dd_span (snd (log_kv T E kvs timestamp now s)) = foldl (spec_log_translate E) (dd_span s) kvs \<and>
    snd (log_kv T E kvs timestamp now s) =
      foldl (log_kv_item T E) (s\<lparr>span_log := add_record kvs timestamp now (span_log s)\<rparr>) kvs \<and>
    log_kv_item T E s (''event'', PStr ''error'') =
      s\<lparr>dd_span := (dd_span s)\<lparr>dd_error := 1,
          dd_calls := dd_calls (dd_span s) @ [Call_set_tag ''error'' (PInt 1)]\<rparr>\<rparr> \<and>
    log_kv_item T E s (''error'', val) =
      s\<lparr>dd_span := (dd_span s)\<lparr>dd_calls := dd_calls (dd_span s) @ [Call_set_tag (ERROR_TYPE E) val]\<rparr>\<rparr> \<and>
    log_kv_item T E s (''error.object'', val) =
      s\<lparr>dd_span := (dd_span s)\<lparr>dd_calls := dd_calls (dd_span s) @ [Call_set_tag (ERROR_TYPE E) val]\<rparr>\<rparr> \<and>
    log_kv_item T E s (''message'', val) =
      s\<lparr>dd_span := (dd_span s)\<lparr>dd_calls := dd_calls (dd_span s) @ [Call_set_tag (ERROR_MSG E) val]\<rparr>\<rparr> \<and>
    log_kv_item T E s (''stack'', val) =
      s\<lparr>dd_span := (dd_span s)\<lparr>dd_calls := dd_calls (dd_span s) @ [Call_set_tag (ERROR_STACK E) val]\<rparr>\<rparr> \<and>
    (key \<notin> {''error'', ''error.object'', ''message'', ''stack''} \<and>
     (key = ''event'' \<longrightarrow> val \<noteq> PStr ''error'') \<longrightarrow> log_kv_item T E s (key, val) = s)"
proof -
  note plain = tables_ok_plain [OF assms]
  have ret: "fst (log_kv T E kvs timestamp now s) = Ret_self"
    by (simp add: log_kv_def)
  have lg: "records (span_log (snd (log_kv T E kvs timestamp now s))) =
      records (span_log s) @ [SpanLogRecord_init kvs timestamp now]"
    by (simp add: log_kv_def log_kv_loop_frame add_record_def)
  have verbatim: "lr_record (SpanLogRecord_init kvs timestamp now) = kvs"
    by (simp add: SpanLogRecord_init_def)
  have dd: "dd_span (snd (log_kv T E kvs timestamp now s)) =
      foldl (spec_log_translate E) (dd_span s) kvs"
    by (simp add: log_kv_def log_kv_loop_spec [OF assms])
  have loop: "snd (log_kv T E kvs timestamp now s) =
      foldl (log_kv_item T E) (s\<lparr>span_log := add_record kvs timestamp now (span_log s)\<rparr>) kvs"
    by (simp add: log_kv_def)
  have ev: "log_kv_item T E s (''event'', PStr ''error'') =
      s\<lparr>dd_span := (dd_span s)\<lparr>dd_error := 1,
          dd_calls := dd_calls (dd_span s) @ [Call_set_tag ''error'' (PInt 1)]\<rparr>\<rparr>"
    using plain by (simp add: log_kv_item_def set_tag_plain dd_invoke_def)
  have er: "log_kv_item T E s (''error'', val) =
      s\<lparr>dd_span := (dd_span s)\<lparr>dd_calls := dd_calls (dd_span s) @ [Call_set_tag (ERROR_TYPE E) val]\<rparr>\<rparr>"
    using plain by (simp add: log_kv_item_def set_tag_plain dd_invoke_def)
  have eo: "log_kv_item T E s (''error.object'', val) =
      s\<lparr>dd_span := (dd_span s)\<lparr>dd_calls := dd_calls (dd_span s) @ [Call_set_tag (ERROR_TYPE E) val]\<rparr>\<rparr>"
    using plain by (simp add: log_kv_item_def set_tag_plain dd_invoke_def)
  have ms: "log_kv_item T E s (''message'', val) =
      s\<lparr>dd_span := (dd_span s)\<lparr>dd_calls := dd_calls (dd_span s) @ [Call_set_tag (ERROR_MSG E) val]\<rparr>\<rparr>"
    using plain by (simp add: log_kv_item_def set_tag_plain dd_invoke_def)
  have st: "log_kv_item T E s (''stack'', val) =
      s\<lparr>dd_span := (dd_span s)\<lparr>dd_calls := dd_calls (dd_span s) @ [Call_set_tag (ERROR_STACK E) val]\<rparr>\<rparr>"
    using plain by (simp add: log_kv_item_def set_tag_plain dd_invoke_def)
  have ot: "key \<notin> {''error'', ''error.object'', ''message'', ''stack''} \<and>
     (key = ''event'' \<longrightarrow> val \<noteq> PStr ''error'') \<longrightarrow> log_kv_item T E s (key, val) = s"
    by (simp add: log_kv_item_def)
  from ret lg verbatim dd loop ev er eo ms st ot show ?thesis by blast
qed

lemma tables_ok_sample: "tables_ok sample_OTTags sample_errors"
  by (simp add: tables_ok_def sample_OTTags_def sample_errors_def)

theorem log_kv_translation_witness:
  "tables_ok sample_OTTags sample_errors \<and>
   fst (log_kv sample_OTTags sample_errors
     [(''event'', PStr ''error''), (''error.object'', PStr ''boom''), (''message'', PStr ''oops''),
      (''stack'', PStr ''trace''), (''level'', PInt 3)] None 11 sample_span) = Ret_self \<and>
   records (span_log (snd (log_kv sample_OTTags sample_errors
     [(''event'', PStr ''error''), (''error.object'', PStr ''boom''), (''message'', PStr ''oops''),
      (''stack'', PStr ''trace''), (''level'', PInt 3)] None 11 sample_span))) =
     [\<lparr>lr_record = [(''event'', PStr ''error''), (''error.object'', PStr ''boom''),
         (''message'', PStr ''oops''), (''stack'', PStr ''trace''), (''level'', PInt 3)],
       lr_timestamp = 11\<rparr>] \<and>
   dd_span (snd (log_kv sample_OTTags sample_errors
     [(''event'', PStr ''error''), (''error.object'', PStr ''boom''), (''message'', PStr ''oops''),
      (''stack'', PStr ''trace''), (''level'', PInt 3)] None 11 sample_span)) =
     (dd_span sample_span)\<lparr>dd_error := 1,
        dd_calls := [Call_set_tag ''error'' (PInt 1), Call_set_tag ''error.type'' (PStr ''boom''),
          Call_set_tag ''error.msg'' (PStr ''oops''), Call_set_tag ''error.stack'' (PStr ''trace'')]\<rparr>"
proof -
  let ?kvs = "[(''event'', PStr ''error''), (''error.object'', PStr ''boom''), (''message'', PStr ''oops''),
      (''stack'', PStr ''trace''), (''level'', PInt 3)]"
  note t = log_kv_translation [OF tables_ok_sample, where kvs = ?kvs and timestamp = None
      and now = 11 and s = sample_span and val = PNone and key = "''level''"]
  from t have t1: "fst (log_kv sample_OTTags sample_errors ?kvs None 11 sample_span) = Ret_self"
    by blast
  from t have t2: "records (span_log (snd (log_kv sample_OTTags sample_errors ?kvs None 11 sample_span))) =
      records (span_log sample_span) @ [SpanLogRecord_init ?kvs None 11]"
    by blast
  from t have t3: "dd_span (snd (log_kv sample_OTTags sample_errors ?kvs None 11 sample_span)) =
      foldl (spec_log_translate sample_errors) (dd_span sample_span) ?kvs"
    by blast
  have r: "records (span_log sample_span) = []"
    by (simp add: sample_span_def SpanLog_init_def)
  have i: "SpanLogRecord_init [(''event'', PStr ''error''), (''error.object'', PStr ''boom''),
      (''message'', PStr ''oops''), (''stack'', PStr ''trace''), (''level'', PInt 3)] None 11 =
     \<lparr>lr_record = [(''event'', PStr ''error''), (''error.object'', PStr ''boom''),
         (''message'', PStr ''oops''), (''stack'', PStr ''trace''), (''level'', PInt 3)],
       lr_timestamp = 11\<rparr>"
    by (simp add: SpanLogRecord_init_def)
  have f: "foldl (spec_log_translate sample_errors) (dd_span sample_span)
      [(''event'', PStr ''error''), (''error.object'', PStr ''boom''), (''message'', PStr ''oops''),
       (''stack'', PStr ''trace''), (''level'', PInt 3)] =
     (dd_span sample_span)\<lparr>dd_error := 1,
        dd_calls := [Call_set_tag ''error'' (PInt 1), Call_set_tag ''error.type'' (PStr ''boom''),
          Call_set_tag ''error.msg'' (PStr ''oops''), Call_set_tag ''error.stack'' (PStr ''trace'')]\<rparr>"
    by (simp add: spec_log_translate_def spec_log_rule_def sample_errors_def dd_invoke_def
        sample_span_def DatadogSpan_new_def)
  from t1 t2 t3 r i f tables_ok_sample show ?thesis by simp
qed

section \<open>Baggage and contexts\<close>

lemma SpanContext_new_ref: "fst (SpanContext_new d b h) = length (contexts h)"
  by (simp add: SpanContext_new_def)

lemma ctx_at_allocated: "ctx_at h a = Some c \<Longrightarrow> a < length (contexts h)"
  by (simp add: ctx_at_def split: if_splits)

lemma SpanContext_new_keeps:
  "ctx_at h a = Some c \<Longrightarrow> ctx_at (snd (SpanContext_new d b h)) a = Some c"
  by (auto simp: SpanContext_new_def ctx_at_def nth_append split: if_splits)

lemma SpanContext_new_given:
  "ctx_at (snd (SpanContext_new (Some d) (Some b) h)) (length (contexts h)) =
     Some \<lparr>ctx_dd_context = d, ctx_baggage = b\<rparr>"
  by (simp add: SpanContext_new_def ctx_at_def)

lemma set_baggage_item_result:
  assumes "ctx_at h (context_ref s) = Some old" and "\<not> lock s"
  shows "set_baggage_item T key val (s, h) =
     Inr (Ret_self,
          (set_tag T key val s)\<lparr>context_ref := length (contexts h), lock := False\<rparr>,
          snd (SpanContext_new (Some (ctx_dd_context old)) (Some ((ctx_baggage old)(key \<mapsto> val))) h))"
  using assms
  by (simp add: set_baggage_item_def with_baggage_item_def set_tag_frame SpanContext_new_def)

lemma set_baggage_item_effect:
  assumes "ctx_at h (context_ref s) = Some old" and "\<not> lock s"
  shows "\<exists>s' h'. set_baggage_item T key val (s, h) = Inr (Ret_self, s', h') \<and>
     context_ref s' \<noteq> context_ref s \<and>
     ctx_at h' (context_ref s') =
       Some \<lparr>ctx_dd_context = ctx_dd_context old, ctx_baggage = (ctx_baggage old)(key \<mapsto> val)\<rparr> \<and>
     ctx_at h' (context_ref s) = Some old \<and>
     (\<forall>a c. ctx_at h a = Some c \<longrightarrow> ctx_at h' a = Some c) \<and>
     get_baggage_item key (s', h') = Inr val \<and>
     (\<forall>k. k \<noteq> key \<longrightarrow> get_baggage_item k (s', h') = get_baggage_item k (s, h))"
proof -
  let ?s' = "(set_tag T key val s)\<lparr>context_ref := length (contexts h), lock := False\<rparr>"
  let ?h' = "snd (SpanContext_new (Some (ctx_dd_context old)) (Some ((ctx_baggage old)(key \<mapsto> val))) h)"
  have res: "set_baggage_item T key val (s, h) = Inr (Ret_self, ?s', ?h')"
    by (rule set_baggage_item_result [OF assms])
  have fresh: "context_ref ?s' \<noteq> context_ref s"
    using ctx_at_allocated [OF assms(1)] by simp
  have new: "ctx_at ?h' (context_ref ?s') =
      Some \<lparr>ctx_dd_context = ctx_dd_context old, ctx_baggage = (ctx_baggage old)(key \<mapsto> val)\<rparr>"
    by (simp add: SpanContext_new_given)
  have old: "ctx_at ?h' (context_ref s) = Some old"
    by (rule SpanContext_new_keeps [OF assms(1)])
  have keep: "\<forall>a c. ctx_at h a = Some c \<longrightarrow> ctx_at ?h' a = Some c"
    by (simp add: SpanContext_new_keeps)
  have get: "get_baggage_item key (?s', ?h') = Inr val"
    using new by (simp add: get_baggage_item_def ctx_get_baggage_item_def)
  have others: "\<forall>k. k \<noteq> key \<longrightarrow> get_baggage_item k (?s', ?h') = get_baggage_item k (s, h)"
    using new assms(1) by (simp add: get_baggage_item_def ctx_get_baggage_item_def)
  from res fresh new old keep get others show ?thesis by blast
qed

text \<open>
  Claim C4. On a span whose context reference names a context of the store and whose
  lock is free, \<open>set_baggage_item\<close> returns the span itself with a context reference
  different from the old one; the new context has the old context's underlying
  reference and the old baggage with \<open>key\<close> mapped to \<open>value\<close>; the old reference still
  names the old context, unchanged, as does every reference that named a context
  before; reading \<open>key\<close> through the span gives \<open>value\<close> and reading another key gives
  what it gave before.
\<close>

theorem set_baggage_item_copy_on_write:
  assumes "ctx_at h (context_ref s) = Some old" and "\<not> lock s"
  shows "\<exists>s' h'. set_baggage_item T key val (s, h) = Inr (Ret_self, s', h') \<and>
     context_ref s' \<noteq> context_ref s \<and>
     ctx_at h' (context_ref s') =
       Some \<lparr>ctx_dd_context = ctx_dd_context old, ctx_baggage = (ctx_baggage old)(key \<mapsto> val)\<rparr> \<and>
     ctx_at h' (context_ref s) = Some old \<and>
     (\<forall>a c. ctx_at h a = Some c \<longrightarrow> ctx_at h' a = Some c) \<and>
     get_baggage_item key (s', h') = Inr val \<and>
     (\<forall>k. k \<noteq> key \<longrightarrow> get_baggage_item k (s', h') = get_baggage_item k (s, h))"
  by (rule set_baggage_item_effect [OF assms])

theorem set_baggage_item_copy_on_write_witness:
  "ctx_at \<lparr>contexts = [\<lparr>ctx_dd_context = 0, ctx_baggage = [''a'' \<mapsto> PInt 1]\<rparr>], dd_context_count = 1\<rparr>
      (context_ref sample_span) = Some \<lparr>ctx_dd_context = 0, ctx_baggage = [''a'' \<mapsto> PInt 1]\<rparr> \<and>
   \<not> lock sample_span \<and>
   (\<exists>s' h'. set_baggage_item sample_OTTags ''b'' (PInt 2)
       (sample_span, \<lparr>contexts = [\<lparr>ctx_dd_context = 0, ctx_baggage = [''a'' \<mapsto> PInt 1]\<rparr>],
                       dd_context_count = 1\<rparr>) = Inr (Ret_self, s', h') \<and>
      context_ref s' \<noteq> context_ref sample_span \<and>
      ctx_at h' (context_ref s') =
        Some \<lparr>ctx_dd_context = 0, ctx_baggage = [''a'' \<mapsto> PInt 1, ''b'' \<mapsto> PInt 2]\<rparr> \<and>
      ctx_at h' (context_ref sample_span) = Some \<lparr>ctx_dd_context = 0, ctx_baggage = [''a'' \<mapsto> PInt 1]\<rparr> \<and>
      get_baggage_item ''b'' (s', h') = Inr (PInt 2))"
proof -
  let ?h = "\<lparr>contexts = [\<lparr>ctx_dd_context = 0, ctx_baggage = [''a'' \<mapsto> PInt 1]\<rparr>], dd_context_count = 1\<rparr>"
  let ?c = "\<lparr>ctx_dd_context = 0, ctx_baggage = [''a'' \<mapsto> PInt 1]\<rparr>"
  have a: "ctx_at ?h (context_ref sample_span) = Some ?c"
    by (simp add: ctx_at_def sample_span_def)
  have l: "\<not> lock sample_span"
    by (simp add: sample_span_def)
  from set_baggage_item_copy_on_write [OF a l, of sample_OTTags "''b''" "PInt 2"]
  obtain s' h' where
    "set_baggage_item sample_OTTags ''b'' (PInt 2) (sample_span, ?h) = Inr (Ret_self, s', h')"
    "context_ref s' \<noteq> context_ref sample_span"
    "ctx_at h' (context_ref s') = Some \<lparr>ctx_dd_context = ctx_dd_context ?c,
        ctx_baggage = (ctx_baggage ?c)(''b'' \<mapsto> PInt 2)\<rparr>"
    "ctx_at h' (context_ref sample_span) = Some ?c"
    "get_baggage_item ''b'' (s', h') = Inr (PInt 2)"
    by blast
  with a l show ?thesis by simp
qed


text \<open>
  Claim C9, as stated, at the reserved key \<open>http.url\<close>: \<open>set_baggage_item\<close> assigns the
  delegate's resource field and does not invoke the delegate's set-tag.
\<close>

theorem set_baggage_item_reserved_key_counterexample:
  "set_baggage_item sample_OTTags ''http.url'' (PStr ''x'') (sample_span, sample_store) =
     Inr (Ret_self,
          sample_span\<lparr>context_ref := 1, dd_span := (dd_span sample_span)\<lparr>dd_resource := PStr ''x''\<rparr>\<rparr>,
          \<lparr>contexts = [\<lparr>ctx_dd_context = 0, ctx_baggage = Map.empty\<rparr>,
                       \<lparr>ctx_dd_context = 0, ctx_baggage = [''http.url'' \<mapsto> PStr ''x'']\<rparr>],
           dd_context_count = 1\<rparr>) \<and>
   dd_calls (dd_span (sample_span\<lparr>context_ref := 1,
      dd_span := (dd_span sample_span)\<lparr>dd_resource := PStr ''x''\<rparr>\<rparr>)) = [] \<and>
   dd_resource (dd_span (sample_span\<lparr>context_ref := 1,
      dd_span := (dd_span sample_span)\<lparr>dd_resource := PStr ''x''\<rparr>\<rparr>)) = PStr ''x''"
  by (simp add: set_baggage_item_def with_baggage_item_def ctx_at_def SpanContext_new_def
      set_tag_def sample_OTTags_def sample_span_def sample_store_def DatadogSpan_new_def)

text \<open>
  Claim C9, amended. For every key and value, \<open>set_baggage_item\<close> returns the span itself
  and leaves the delegate as \<open>Span.set_tag\<close> with the same key and value leaves it: a
  key that is not reserved is forwarded as a generic tag, the span-type key is assigned
  to the span-type field and the HTTP-URL and database-statement keys to the resource
  field; the baggage of the span's context then maps the key to the value.
\<close>

theorem set_baggage_item_mirrors_through_set_tag:
  assumes "ctx_at h (context_ref s) = Some old" and "\<not> lock s"
  shows "\<exists>s' h'. set_baggage_item T key val (s, h) = Inr (Ret_self, s', h') \<and>
     dd_span s' = dd_span (set_tag T key val s) \<and>
     (\<not> reserved_key T key \<longrightarrow>
        dd_span s' = (dd_span s)\<lparr>dd_calls := dd_calls (dd_span s) @ [Call_set_tag key val]\<rparr>) \<and>
     (key = SPAN_TYPE T \<longrightarrow> dd_span s' = (dd_span s)\<lparr>dd_span_type := val\<rparr>) \<and>
     (key \<noteq> SPAN_TYPE T \<and> (key = HTTP_URL T \<or> key = DB_STATEMENT T) \<longrightarrow>
        dd_span s' = (dd_span s)\<lparr>dd_resource := val\<rparr>) \<and>
     get_baggage_item key (s', h') = Inr val"
proof -
  let ?s' = "(set_tag T key val s)\<lparr>context_ref := length (contexts h), lock := False\<rparr>"
  let ?h' = "snd (SpanContext_new (Some (ctx_dd_context old)) (Some ((ctx_baggage old)(key \<mapsto> val))) h)"
  have res: "set_baggage_item T key val (s, h) = Inr (Ret_self, ?s', ?h')"
    by (rule set_baggage_item_result [OF assms])
  have dd: "dd_span ?s' = dd_span (set_tag T key val s)"
    by simp
  have plain: "\<not> reserved_key T key \<longrightarrow>
      dd_span ?s' = (dd_span s)\<lparr>dd_calls := dd_calls (dd_span s) @ [Call_set_tag key val]\<rparr>"
    by (simp add: set_tag_plain dd_invoke_def)
  have ty: "key = SPAN_TYPE T \<longrightarrow> dd_span ?s' = (dd_span s)\<lparr>dd_span_type := val\<rparr>"
    by (simp add: set_tag_def)
  have rs: "key \<noteq> SPAN_TYPE T \<and> (key = HTTP_URL T \<or> key = DB_STATEMENT T) \<longrightarrow>
      dd_span ?s' = (dd_span s)\<lparr>dd_resource := val\<rparr>"
    by (auto simp: set_tag_def)
  have get: "get_baggage_item key (?s', ?h') = Inr val"
    by (simp add: get_baggage_item_def ctx_get_baggage_item_def SpanContext_new_given)
  from res dd plain ty rs get show ?thesis by blast
qed

theorem set_baggage_item_mirrors_through_set_tag_witness:
  "ctx_at sample_store (context_ref sample_span) = Some \<lparr>ctx_dd_context = 0, ctx_baggage = Map.empty\<rparr> \<and>
   \<not> lock sample_span \<and> \<not> reserved_key sample_OTTags ''user'' \<and>
   (\<exists>s' h'. set_baggage_item sample_OTTags ''user'' (PStr ''ann'') (sample_span, sample_store) =
        Inr (Ret_self, s', h') \<and>
      dd_calls (dd_span s') = [Call_set_tag ''user'' (PStr ''ann'')] \<and>
      get_baggage_item ''user'' (s', h') = Inr (PStr ''ann'')) \<and>
   (\<exists>s' h'. set_baggage_item sample_OTTags ''span.kind'' (PStr ''client'') (sample_span, sample_store) =
        Inr (Ret_self, s', h') \<and>
      dd_calls (dd_span s') = [] \<and> dd_span_type (dd_span s') = PStr ''client'' \<and>
      get_baggage_item ''span.kind'' (s', h') = Inr (PStr ''client''))"
proof -
  let ?c = "\<lparr>ctx_dd_context = 0, ctx_baggage = Map.empty\<rparr>"
  have a: "ctx_at sample_store (context_ref sample_span) = Some ?c"
    by (simp add: ctx_at_def sample_span_def sample_store_def)
  have l: "\<not> lock sample_span"
    by (simp add: sample_span_def)
  have r: "\<not> reserved_key sample_OTTags ''user''"
    by (simp add: reserved_key_def sample_OTTags_def)
  have k: "''span.kind'' = SPAN_TYPE sample_OTTags"
    by (simp add: sample_OTTags_def)
  have e: "dd_calls (dd_span sample_span) = []"
    by (simp add: sample_span_def DatadogSpan_new_def)
  from set_baggage_item_mirrors_through_set_tag [OF a l, of sample_OTTags "''user''" "PStr ''ann''"] r
  obtain s1 h1 where
    "set_baggage_item sample_OTTags ''user'' (PStr ''ann'') (sample_span, sample_store) = Inr (Ret_self, s1, h1)"
    "dd_span s1 = (dd_span sample_span)\<lparr>dd_calls := dd_calls (dd_span sample_span) @
        [Call_set_tag ''user'' (PStr ''ann'')]\<rparr>"
    "get_baggage_item ''user'' (s1, h1) = Inr (PStr ''ann'')"
    by blast
  with e have first: "\<exists>s' h'. set_baggage_item sample_OTTags ''user'' (PStr ''ann'') (sample_span, sample_store) =
        Inr (Ret_self, s', h') \<and>
      dd_calls (dd_span s') = [Call_set_tag ''user'' (PStr ''ann'')] \<and>
      get_baggage_item ''user'' (s', h') = Inr (PStr ''ann'')"
    by simp
  from set_baggage_item_mirrors_through_set_tag [OF a l, of sample_OTTags "''span.kind''" "PStr ''client''"] k
  obtain s2 h2 where
    "set_baggage_item sample_OTTags ''span.kind'' (PStr ''client'') (sample_span, sample_store) =
        Inr (Ret_self, s2, h2)"
    "dd_span s2 = (dd_span sample_span)\<lparr>dd_span_type := PStr ''client''\<rparr>"
    "get_baggage_item ''span.kind'' (s2, h2) = Inr (PStr ''client'')"
    by blast
  with e have second: "\<exists>s' h'. set_baggage_item sample_OTTags ''span.kind'' (PStr ''client'')
        (sample_span, sample_store) = Inr (Ret_self, s', h') \<and>
      dd_calls (dd_span s') = [] \<and> dd_span_type (dd_span s') = PStr ''client'' \<and>
      get_baggage_item ''span.kind'' (s', h') = Inr (PStr ''client'')"
    by simp
  from a l r first second show ?thesis by blast
qed

lemma Span_init_child:
  assumes "ctx_at h p = Some pc"
  shows "Span_init tr (Some p) operation_name h =
     Inr (\<lparr>tracer = tr, context_ref = length (contexts h), span_log = SpanLog_init, finished = False,
           lock = False,
           dd_span = DatadogSpan_new (tr_dd_tracer tr) operation_name (ctx_dd_context pc)\<rparr>,
          snd (SpanContext_new (Some (ctx_dd_context pc)) (Some (ctx_baggage pc)) h))"
proof -
  obtain c h' where n: "SpanContext_new (Some (ctx_dd_context pc)) (Some (ctx_baggage pc)) h = (c, h')"
    by (cases "SpanContext_new (Some (ctx_dd_context pc)) (Some (ctx_baggage pc)) h")
  then have c: "c = length (contexts h)"
    using SpanContext_new_ref [of "Some (ctx_dd_context pc)" "Some (ctx_baggage pc)" h] by simp
  have "ctx_at h' c = Some \<lparr>ctx_dd_context = ctx_dd_context pc, ctx_baggage = ctx_baggage pc\<rparr>"
    using SpanContext_new_given [of "ctx_dd_context pc" "ctx_baggage pc" h] n c by simp
  with assms n c show ?thesis
    by (simp add: Span_init_def)
qed

text \<open>
  Claim C8. Creating a span from a parent context that is in the store succeeds; the
  child's context is a new object carrying the parent's underlying context reference
  and the parent's baggage, so every key reads through the child as it reads in the
  parent; the parent context is unchanged; a later \<open>set_baggage_item\<close> on the child
  leaves the parent context unchanged, and a later \<open>set_baggage_item\<close> on any span
  that holds the parent context leaves the child's context unchanged.
\<close>

theorem child_span_context_cloned:
  assumes "ctx_at h p = Some pc"
  shows "\<exists>child h1.
     Span_init tr (Some p) operation_name h = Inr (child, h1) \<and>
     context_ref child \<noteq> p \<and>
     ctx_at h1 (context_ref child) = Some \<lparr>ctx_dd_context = ctx_dd_context pc, ctx_baggage = ctx_baggage pc\<rparr> \<and>
     ctx_at h1 p = Some pc \<and>
     (\<forall>key. get_baggage_item key (child, h1) = Inr (ctx_get_baggage_item pc key)) \<and>
     (\<forall>key val. \<exists>child' h2.
        set_baggage_item T key val (child, h1) = Inr (Ret_self, child', h2) \<and>
        get_baggage_item key (child', h2) = Inr val \<and>
        ctx_at h2 p = Some pc) \<and>
     (\<forall>parent key val. context_ref parent = p \<and> \<not> lock parent \<longrightarrow>
        (\<exists>parent' h2.
           set_baggage_item T key val (parent, h1) = Inr (Ret_self, parent', h2) \<and>
           get_baggage_item key (parent', h2) = Inr val \<and>
           ctx_at h2 (context_ref child) =
             Some \<lparr>ctx_dd_context = ctx_dd_context pc, ctx_baggage = ctx_baggage pc\<rparr>))"
proof -
  let ?cc = "\<lparr>ctx_dd_context = ctx_dd_context pc, ctx_baggage = ctx_baggage pc\<rparr>"
  let ?child = "\<lparr>tracer = tr, context_ref = length (contexts h), span_log = SpanLog_init,
      finished = False, lock = False,
      dd_span = DatadogSpan_new (tr_dd_tracer tr) operation_name (ctx_dd_context pc)\<rparr>"
  let ?h1 = "snd (SpanContext_new (Some (ctx_dd_context pc)) (Some (ctx_baggage pc)) h)"
  have init: "Span_init tr (Some p) operation_name h = Inr (?child, ?h1)"
    by (rule Span_init_child [OF assms])
  have fresh: "context_ref ?child \<noteq> p"
    using ctx_at_allocated [OF assms] by simp
  have cc: "ctx_at ?h1 (context_ref ?child) = Some ?cc"
    by (simp add: SpanContext_new_given)
  have pp: "ctx_at ?h1 p = Some pc"
    by (rule SpanContext_new_keeps [OF assms])
  have reads: "\<forall>key. get_baggage_item key (?child, ?h1) = Inr (ctx_get_baggage_item pc key)"
    using cc by (simp add: get_baggage_item_def ctx_get_baggage_item_def)
  have unlocked: "\<not> lock ?child" by simp
  have down: "\<forall>key val. \<exists>child' h2.
        set_baggage_item T key val (?child, ?h1) = Inr (Ret_self, child', h2) \<and>
        get_baggage_item key (child', h2) = Inr val \<and> ctx_at h2 p = Some pc"
    using set_baggage_item_effect [OF cc unlocked, of T] pp by blast
  have up: "\<forall>parent key val. context_ref parent = p \<and> \<not> lock parent \<longrightarrow>
        (\<exists>parent' h2.
           set_baggage_item T key val (parent, ?h1) = Inr (Ret_self, parent', h2) \<and>
           get_baggage_item key (parent', h2) = Inr val \<and>
           ctx_at h2 (context_ref ?child) = Some ?cc)"
  proof (intro allI impI)
    fix parent :: Span and key val
    assume "context_ref parent = p \<and> \<not> lock parent"
    then have a: "ctx_at ?h1 (context_ref parent) = Some pc" and l: "\<not> lock parent"
      using pp by simp_all
    from set_baggage_item_effect [OF a l, of T key val] cc
    show "\<exists>parent' h2.
           set_baggage_item T key val (parent, ?h1) = Inr (Ret_self, parent', h2) \<and>
           get_baggage_item key (parent', h2) = Inr val \<and>
           ctx_at h2 (context_ref ?child) = Some ?cc"
      by blast
  qed
  from init fresh cc pp reads down up show ?thesis by blast
qed


theorem child_span_context_cloned_witness:
  "ctx_at \<lparr>contexts = [\<lparr>ctx_dd_context = 0, ctx_baggage = [''x'' \<mapsto> PStr ''y'']\<rparr>], dd_context_count = 1\<rparr> 0 =
     Some \<lparr>ctx_dd_context = 0, ctx_baggage = [''x'' \<mapsto> PStr ''y'']\<rparr> \<and>
   context_ref sample_span = 0 \<and> \<not> lock sample_span \<and>
   (\<exists>child h1.
      Span_init sample_tracer (Some 0) ''child''
        \<lparr>contexts = [\<lparr>ctx_dd_context = 0, ctx_baggage = [''x'' \<mapsto> PStr ''y'']\<rparr>], dd_context_count = 1\<rparr> =
        Inr (child, h1) \<and>
      context_ref child \<noteq> 0 \<and>
      get_baggage_item ''x'' (child, h1) = Inr (PStr ''y'') \<and>
      (\<exists>child' h2.
         set_baggage_item sample_OTTags ''k'' (PInt 1) (child, h1) = Inr (Ret_self, child', h2) \<and>
         get_baggage_item ''k'' (child', h2) = Inr (PInt 1) \<and>
         ctx_at h2 0 = Some \<lparr>ctx_dd_context = 0, ctx_baggage = [''x'' \<mapsto> PStr ''y'']\<rparr>) \<and>
      (\<exists>parent' h2.
         set_baggage_item sample_OTTags ''k'' (PInt 1) (sample_span, h1) = Inr (Ret_self, parent', h2) \<and>
         get_baggage_item ''k'' (parent', h2) = Inr (PInt 1) \<and>
         ctx_at h2 (context_ref child) =
           Some \<lparr>ctx_dd_context = 0, ctx_baggage = [''x'' \<mapsto> PStr ''y'']\<rparr>))"
proof -
  let ?pc = "\<lparr>ctx_dd_context = 0, ctx_baggage = [''x'' \<mapsto> PStr ''y'']\<rparr>"
  let ?h = "\<lparr>contexts = [?pc], dd_context_count = 1\<rparr>"
  have a: "ctx_at ?h 0 = Some ?pc"
    by (simp add: ctx_at_def)
  have r: "context_ref sample_span = 0" and l: "\<not> lock sample_span"
    by (simp_all add: sample_span_def)
  from child_span_context_cloned [OF a, of sample_tracer "''child''" sample_OTTags]
  obtain child h1 where
    i: "Span_init sample_tracer (Some 0) ''child'' ?h = Inr (child, h1)" and
    f: "context_ref child \<noteq> 0" and
    g: "\<forall>key. get_baggage_item key (child, h1) = Inr (ctx_get_baggage_item ?pc key)" and
    d: "\<forall>key val. \<exists>child' h2.
        set_baggage_item sample_OTTags key val (child, h1) = Inr (Ret_self, child', h2) \<and>
        get_baggage_item key (child', h2) = Inr val \<and> ctx_at h2 0 = Some ?pc" and
    u: "\<forall>parent key val. context_ref parent = 0 \<and> \<not> lock parent \<longrightarrow>
        (\<exists>parent' h2.
           set_baggage_item sample_OTTags key val (parent, h1) = Inr (Ret_self, parent', h2) \<and>
           get_baggage_item key (parent', h2) = Inr val \<and>
           ctx_at h2 (context_ref child) =
             Some \<lparr>ctx_dd_context = ctx_dd_context ?pc, ctx_baggage = ctx_baggage ?pc\<rparr>)"
    by blast
  from g have g': "get_baggage_item ''x'' (child, h1) = Inr (PStr ''y'')"
    by (simp add: ctx_get_baggage_item_def)
  from d have d': "\<exists>child' h2.
         set_baggage_item sample_OTTags ''k'' (PInt 1) (child, h1) = Inr (Ret_self, child', h2) \<and>
         get_baggage_item ''k'' (child', h2) = Inr (PInt 1) \<and> ctx_at h2 0 = Some ?pc"
    by blast
  from u r l have u': "\<exists>parent' h2.
         set_baggage_item sample_OTTags ''k'' (PInt 1) (sample_span, h1) = Inr (Ret_self, parent', h2) \<and>
         get_baggage_item ''k'' (parent', h2) = Inr (PInt 1) \<and>
         ctx_at h2 (context_ref child) = Some ?pc"
    by simp
  from a r l i f g' d' u' show ?thesis by blast
qed

section \<open>Lifecycle: the latch, scoped exit and concurrent writers\<close>

lemma count_finish_set_tag: "count_finish (dd_span (set_tag T key val s)) = count_finish (dd_span s)"
  by (simp add: set_tag_def count_finish_def dd_invoke_def)

lemma count_finish_log_kv_item:
  "count_finish (dd_span (log_kv_item T E s kv)) = count_finish (dd_span s)"
proof -
  have "count_finish (dd_span (s\<lparr>dd_span := (dd_span s)\<lparr>dd_error := 1\<rparr>\<rparr>)) = count_finish (dd_span s)"
    by (simp add: count_finish_def)
  then show ?thesis
    by (cases kv) (simp add: log_kv_item_def count_finish_set_tag)
qed

lemma count_finish_log_kv_loop:
  "count_finish (dd_span (foldl (log_kv_item T E) s kvs)) = count_finish (dd_span s)"
  by (induction kvs arbitrary: s) (simp_all add: count_finish_log_kv_item)

lemma Span_exit_calls:
  "dd_calls (dd_span (Span_exit exc_type exc_val exc_tb s)) =
     dd_calls (dd_span s) @
     (if truthy exc_type then [Call_set_exc_info exc_type exc_val exc_tb] else []) @
     [Call_exit exc_type exc_val exc_tb] @
     (if finished s then [] else [Call_finish None])"
  by (simp add: Span_exit_def finish_def dd_invoke_def Let_def)

lemma finished_Span_exit: "finished (Span_exit exc_type exc_val exc_tb s)"
  by (simp add: Span_exit_def finish_def Let_def)

lemma count_finish_Span_exit:
  "count_finish (dd_span (Span_exit exc_type exc_val exc_tb s)) =
     count_finish (dd_span s) + (if finished s then 0 else 1)"
  by (simp add: count_finish_def Span_exit_calls)

text \<open>What one call does to the latch and to the number of finish invocations.\<close>

lemma call_latch:
  assumes "call T E c (s, h) = Inr (s', h')"
  shows "(finished s \<longrightarrow> finished s') \<and>
     count_finish (dd_span s') = count_finish (dd_span s) + (if finished s' \<and> \<not> finished s then 1 else 0)"
proof (cases c)
  case (Op_finish t)
  with assms show ?thesis
    by (auto simp: count_finish_finish finished_finish)
next
  case (Op_set_tag key val)
  with assms show ?thesis
    by (auto simp: count_finish_set_tag set_tag_frame)
next
  case (Op_log_kv kvs timestamp now)
  with assms show ?thesis
    by (auto simp: log_kv_def count_finish_log_kv_loop log_kv_loop_frame)
next
  case (Op_set_baggage_item key val)
  with assms show ?thesis
    by (auto simp: set_baggage_item_def count_finish_set_tag set_tag_frame Let_def
        split: sum.splits if_splits prod.splits)
next
  case (Op_set_operation_name n)
  with assms show ?thesis
    by (auto simp: set_operation_name_def count_finish_def)
next
  case (Op_exit exc_type exc_val exc_tb)
  with assms show ?thesis
    by (auto simp: count_finish_Span_exit finished_Span_exit)
qed

lemma call_lifecycle:
  assumes "call T E c (s, h) = Inr (s', h')" and "lifecycle_ok s"
  shows "lifecycle_ok s'"
  using call_latch [OF assms(1)] assms(2) by (auto simp: lifecycle_ok_def split: if_splits)

lemma calls_lifecycle:
  "calls T E cs (s, h) = Inr (s', h') \<Longrightarrow> lifecycle_ok s \<Longrightarrow> lifecycle_ok s'"
proof (induction cs arbitrary: s h)
  case Nil
  then show ?case by simp
next
  case (Cons c cs)
  then obtain s1 h1 where 1: "call T E c (s, h) = Inr (s1, h1)"
    and 2: "calls T E cs (s1, h1) = Inr (s', h')"
    by (auto split: sum.splits)
  from call_lifecycle [OF 1 Cons.prems(2)] Cons.IH [OF 2] show ?case by blast
qed

lemma calls_keep_latch:
  "calls T E cs (s, h) = Inr (s', h') \<Longrightarrow> finished s \<Longrightarrow> finished s'"
proof (induction cs arbitrary: s h)
  case Nil
  then show ?case by simp
next
  case (Cons c cs)
  then obtain s1 h1 where 1: "call T E c (s, h) = Inr (s1, h1)"
    and 2: "calls T E cs (s1, h1) = Inr (s', h')"
    by (auto split: sum.splits)
  from call_latch [OF 1] Cons.prems(2) have "finished s1"
    by blast
  with Cons.IH [OF 2] show ?case by simp
qed

lemma Span_init_lifecycle:
  assumes "Span_init tr context operation_name h = Inr (s, h')"
  shows "lifecycle_ok s"
  using assms
  by (auto simp: Span_init_def lifecycle_ok_def count_finish_def DatadogSpan_new_def
      split: option.splits sum.splits prod.splits)

text \<open>
  Claim C6. \<open>__exit__\<close> invokes on the delegate, in this order: the exception-info
  recorder with the exception's type, value and traceback if an exception is pending
  (\<open>exc_type\<close> is truthy), the delegate's own scoped exit, and, unless the span was
  finished already, finish without an end time. Afterwards the latch is set in every
  case. The adapter's finish invocations grow by one if the span was unfinished and
  not at all otherwise, so that for a span obtained from the constructor by any series
  of calls (finish and exit included) their number after \<open>__exit__\<close> is exactly one.
  The delegate's scoped exit counts as one invocation; the finish that it performs
  inside itself, which the comment in the source relies on to be idempotent, is the
  delegate's own.
\<close>

theorem exit_records_exception_and_finishes:
  "dd_calls (dd_span (Span_exit exc_type exc_val exc_tb s)) =
     dd_calls (dd_span s) @
     (if truthy exc_type then [Call_set_exc_info exc_type exc_val exc_tb] else []) @
     [Call_exit exc_type exc_val exc_tb] @
     (if finished s then [] else [Call_finish None]) \<and>
   finished (Span_exit exc_type exc_val exc_tb s) \<and>
   count_finish (dd_span (Span_exit exc_type exc_val exc_tb s)) =
     count_finish (dd_span s) + (if finished s then 0 else 1) \<and>
   (\<forall>tr parent operation_name h s0 h0 cs h1.
      Span_init tr parent operation_name h = Inr (s0, h0) \<and> calls T E cs (s0, h0) = Inr (s, h1) \<longrightarrow>
      count_finish (dd_span (Span_exit exc_type exc_val exc_tb s)) = 1)"
proof -
  have once: "count_finish (dd_span (Span_exit exc_type exc_val exc_tb s)) = 1"
    if "Span_init tr parent operation_name h = Inr (s0, h0)" and "calls T E cs (s0, h0) = Inr (s, h1)"
    for tr parent operation_name h s0 h0 cs h1
  proof -
    from calls_lifecycle [OF that(2) Span_init_lifecycle [OF that(1)]]
    show ?thesis by (simp add: lifecycle_ok_def count_finish_Span_exit)
  qed
  from Span_exit_calls finished_Span_exit count_finish_Span_exit once show ?thesis by blast
qed


theorem exit_records_exception_and_finishes_witness:
  "Span_init sample_tracer None ''op'' empty_store = Inr (sample_span, sample_store) \<and>
   calls sample_OTTags sample_errors [Op_set_tag ''k'' (PInt 1), Op_finish (Some 3)]
     (sample_span, sample_store) =
     Inr (finish (Some 3) (set_tag sample_OTTags ''k'' (PInt 1) sample_span), sample_store) \<and>
   count_finish (dd_span (Span_exit PNone PNone PNone
     (finish (Some 3) (set_tag sample_OTTags ''k'' (PInt 1) sample_span)))) = 1 \<and>
   dd_calls (dd_span (Span_exit (PObj 1) (PStr ''boom'') (PObj 2) sample_span)) =
     [Call_set_exc_info (PObj 1) (PStr ''boom'') (PObj 2), Call_exit (PObj 1) (PStr ''boom'') (PObj 2),
      Call_finish None] \<and>
   finished (Span_exit (PObj 1) (PStr ''boom'') (PObj 2) sample_span)"
proof -
  let ?s = "finish (Some 3) (set_tag sample_OTTags ''k'' (PInt 1) sample_span)"
  have c: "calls sample_OTTags sample_errors [Op_set_tag ''k'' (PInt 1), Op_finish (Some 3)]
     (sample_span, sample_store) = Inr (?s, sample_store)"
    by simp
  have "count_finish (dd_span (Span_exit PNone PNone PNone ?s)) = 1"
    using exit_records_exception_and_finishes [of PNone PNone PNone ?s sample_OTTags sample_errors]
      Span_init_sample c by blast
  moreover have "dd_calls (dd_span (Span_exit (PObj 1) (PStr ''boom'') (PObj 2) sample_span)) =
     [Call_set_exc_info (PObj 1) (PStr ''boom'') (PObj 2), Call_exit (PObj 1) (PStr ''boom'') (PObj 2),
      Call_finish None]"
    using exit_records_exception_and_finishes [of "PObj 1" "PStr ''boom''" "PObj 2" sample_span]
    by (simp add: sample_span_def DatadogSpan_new_def)
  moreover have "finished (Span_exit (PObj 1) (PStr ''boom'') (PObj 2) sample_span)"
    using exit_records_exception_and_finishes [of "PObj 1" "PStr ''boom''" "PObj 2" sample_span]
    by blast
  ultimately show ?thesis using Span_init_sample c by blast
qed

lemma set_tag_latch: "set_tag T key val (s\<lparr>finished := b\<rparr>) = (set_tag T key val s)\<lparr>finished := b\<rparr>"
  by (simp add: set_tag_def)

lemma log_kv_item_latch:
  "log_kv_item T E (s\<lparr>finished := b\<rparr>) kv = (log_kv_item T E s kv)\<lparr>finished := b\<rparr>"
proof -
  have "set_tag T ''error'' (PInt 1) (s\<lparr>finished := b, dd_span := (dd_span s)\<lparr>dd_error := 1\<rparr>\<rparr>) =
      (set_tag T ''error'' (PInt 1) (s\<lparr>dd_span := (dd_span s)\<lparr>dd_error := 1\<rparr>\<rparr>))\<lparr>finished := b\<rparr>"
    by (simp add: set_tag_def)
  then show ?thesis
    by (cases kv) (simp add: log_kv_item_def set_tag_latch)
qed

lemma log_kv_loop_latch:
  "foldl (log_kv_item T E) (s\<lparr>finished := b\<rparr>) kvs = (foldl (log_kv_item T E) s kvs)\<lparr>finished := b\<rparr>"
  by (induction kvs arbitrary: s) (simp_all add: log_kv_item_latch)

lemma call_ignores_latch:
  assumes "\<not> finishes c"
  shows "call T E c (set_latch b (s, h)) = map_sum id (set_latch b) (call T E c (s, h))"
proof (cases c)
  case (Op_finish t)
  with assms show ?thesis by simp
next
  case (Op_set_tag key val)
  then show ?thesis by (simp add: set_latch_def set_tag_latch)
next
  case (Op_log_kv kvs timestamp now)
  have "foldl (log_kv_item T E)
        ((s\<lparr>span_log := add_record kvs timestamp now (span_log s)\<rparr>)\<lparr>finished := b\<rparr>) kvs =
      (foldl (log_kv_item T E) (s\<lparr>span_log := add_record kvs timestamp now (span_log s)\<rparr>) kvs)
        \<lparr>finished := b\<rparr>"
    by (rule log_kv_loop_latch)
  moreover have "s\<lparr>finished := b, span_log := add_record kvs timestamp now (span_log s)\<rparr> =
      (s\<lparr>span_log := add_record kvs timestamp now (span_log s)\<rparr>)\<lparr>finished := b\<rparr>"
    by simp
  ultimately have "foldl (log_kv_item T E)
        (s\<lparr>finished := b, span_log := add_record kvs timestamp now (span_log s)\<rparr>) kvs =
      (foldl (log_kv_item T E) (s\<lparr>span_log := add_record kvs timestamp now (span_log s)\<rparr>) kvs)
        \<lparr>finished := b\<rparr>"
    by (simp only:)
  with Op_log_kv show ?thesis
    by (simp add: set_latch_def log_kv_def)
next
  case (Op_set_baggage_item key val)
  then show ?thesis
    by (simp add: set_latch_def set_baggage_item_def set_tag_latch Let_def split: sum.splits prod.splits)
next
  case (Op_set_operation_name n)
  then show ?thesis by (simp add: set_latch_def set_operation_name_def)
next
  case (Op_exit exc_type exc_val exc_tb)
  with assms show ?thesis by simp
qed

text \<open>
  Claim C5, amended. The latch goes from unset to set once: \<open>finish\<close> sets it; on a
  finished span a further \<open>finish\<close> changes nothing, and no series of calls of finish,
  set_tag, log_kv, set_baggage_item and set_operation_name unsets it. The calls
  set_tag, log_kv, set_baggage_item and set_operation_name do not consult the latch: on
  a span with the latch forced to any value they have the effect they have on the span
  itself, and leave the latch as it is.
\<close>

theorem finished_latch_is_never_reset:
  assumes "finished s"
  shows "finished (finish t u) \<and>
     finish t s = s \<and>
     (\<forall>cs h s' h'. list_all (\<lambda>c. \<not> is_exit c) cs \<and> calls T E cs (s, h) = Inr (s', h') \<longrightarrow>
        finished s') \<and>
     (\<forall>c h b. \<not> finishes c \<longrightarrow>
        call T E c (set_latch b (s, h)) = map_sum id (set_latch b) (call T E c (s, h)))"
proof -
  have "finished (finish t u)"
    by (rule finished_finish)
  moreover from assms have "finish t s = s"
    by (simp add: finish_def)
  moreover have "\<forall>cs h s' h'. list_all (\<lambda>c. \<not> is_exit c) cs \<and> calls T E cs (s, h) = Inr (s', h') \<longrightarrow>
        finished s'"
    using calls_keep_latch assms by blast
  moreover have "\<forall>c h b. \<not> finishes c \<longrightarrow>
        call T E c (set_latch b (s, h)) = map_sum id (set_latch b) (call T E c (s, h))"
    using call_ignores_latch by blast
  ultimately show ?thesis by blast
qed

text \<open>
  Claim C5, as stated, on a span that has been finished: \<open>set_operation_name\<close> still
  renames the delegate, \<open>set_tag\<close> still forwards a generic tag and still assigns the
  span-type field, and \<open>log_kv\<close> still appends to the log and sets the error flag.
\<close>

theorem post_finish_calls_still_write_counterexample:
  "finished (finish None sample_span) \<and>
   dd_name (dd_span (finish None sample_span)) = ''op'' \<and>
   dd_name (dd_span (set_operation_name ''renamed'' (finish None sample_span))) = ''renamed'' \<and>
   dd_calls (dd_span (finish None sample_span)) = [Call_finish None] \<and>
   dd_calls (dd_span (set_tag sample_OTTags ''k'' (PInt 1) (finish None sample_span))) =
     [Call_finish None, Call_set_tag ''k'' (PInt 1)] \<and>
   dd_span_type (dd_span (finish None sample_span)) = PNone \<and>
   dd_span_type (dd_span (set_tag sample_OTTags ''span.kind'' (PStr ''client'') (finish None sample_span))) =
     PStr ''client'' \<and>
   records (span_log (finish None sample_span)) = [] \<and>
   records (span_log (snd (log_kv sample_OTTags sample_errors [(''event'', PStr ''error'')] (Some 4) 9
     (finish None sample_span)))) = [\<lparr>lr_record = [(''event'', PStr ''error'')], lr_timestamp = 4\<rparr>] \<and>
   dd_error (dd_span (finish None sample_span)) = 0 \<and>
   dd_error (dd_span (snd (log_kv sample_OTTags sample_errors [(''event'', PStr ''error'')] (Some 4) 9
     (finish None sample_span)))) = 1"
  by (simp add: finish_def set_operation_name_def set_tag_def log_kv_def log_kv_item_def
      add_record_def SpanLogRecord_init_def SpanLog_init_def dd_invoke_def
      sample_span_def sample_OTTags_def sample_errors_def DatadogSpan_new_def)


theorem finished_latch_is_never_reset_witness:
  "finished (finish None sample_span) \<and>
   finish (Some 2) (finish None sample_span) = finish None sample_span \<and>
   list_all (\<lambda>c. \<not> is_exit c)
     [Op_set_tag ''k'' (PInt 1), Op_finish (Some 2), Op_set_operation_name ''n''] \<and>
   calls sample_OTTags sample_errors
     [Op_set_tag ''k'' (PInt 1), Op_finish (Some 2), Op_set_operation_name ''n'']
     (finish None sample_span, sample_store) =
     Inr (set_operation_name ''n'' (finish (Some 2)
            (set_tag sample_OTTags ''k'' (PInt 1) (finish None sample_span))), sample_store) \<and>
   finished (set_operation_name ''n'' (finish (Some 2)
      (set_tag sample_OTTags ''k'' (PInt 1) (finish None sample_span)))) \<and>
   \<not> finishes (Op_set_operation_name ''n'') \<and>
   call sample_OTTags sample_errors (Op_set_operation_name ''n'')
     (set_latch False (finish None sample_span, sample_store)) =
     map_sum id (set_latch False)
       (call sample_OTTags sample_errors (Op_set_operation_name ''n'') (finish None sample_span, sample_store))"
proof -
  let ?f = "finish None sample_span"
  let ?cs = "[Op_set_tag ''k'' (PInt 1), Op_finish (Some 2), Op_set_operation_name ''n'']"
  let ?s3 = "set_operation_name ''n'' (finish (Some 2) (set_tag sample_OTTags ''k'' (PInt 1) ?f))"
  have f: "finished ?f"
    by (simp add: finish_def)
  note t = finished_latch_is_never_reset [OF f, of "Some 2" sample_span sample_OTTags sample_errors]
  have e: "list_all (\<lambda>c. \<not> is_exit c) ?cs"
    by simp
  have c: "calls sample_OTTags sample_errors ?cs (?f, sample_store) = Inr (?s3, sample_store)"
    by simp
  from t have again: "finish (Some 2) ?f = ?f"
    by blast
  from t e c have latch: "finished ?s3"
    by blast
  have n: "\<not> finishes (Op_set_operation_name ''n'')"
    by simp
  with t have "call sample_OTTags sample_errors (Op_set_operation_name ''n'')
     (set_latch False (?f, sample_store)) =
     map_sum id (set_latch False)
       (call sample_OTTags sample_errors (Op_set_operation_name ''n'') (?f, sample_store))"
    by blast
  with f again e c latch n show ?thesis by blast
qed

text \<open>
  A thread that runs alone through its five steps does what \<open>set_baggage_item\<close> does.
\<close>

lemma writer_alone:
  assumes "ctx_at h (context_ref s) = Some old" and "\<not> lock s"
    and "set_baggage_item T key val (s, h) = Inr (r, s', h')"
  shows "run_schedule T [0, 0, 0, 0, 0] ([writer_start key val], s, h) =
     ([\<lparr>w_pc = Returned, w_key = key, w_value = val, w_new_ctx = context_ref s'\<rparr>], s', h')"
proof -
  from set_baggage_item_result [OF assms(1,2), of T key val] assms(3)
  have s': "s' = (set_tag T key val s)\<lparr>context_ref := length (contexts h), lock := False\<rparr>"
    and h': "h' = snd (SpanContext_new (Some (ctx_dd_context old))
        (Some ((ctx_baggage old)(key \<mapsto> val))) h)"
    by simp_all
  show ?thesis
    unfolding s' h' using assms(1,2)
    by (simp add: writer_step_def writer_start_def with_baggage_item_def set_tag_frame
        SpanContext_new_def)
qed

text \<open>
  When the two threads of the sample run one after the other, the final context holds
  both keys.
\<close>

lemma writers_in_turn_keep_both:
  "run_schedule sample_OTTags [0, 0, 0, 0, 0, 1, 1, 1, 1, 1]
     ([writer_start ''a'' (PInt 1), writer_start ''b'' (PInt 2)], sample_span, sample_store) =
   ([\<lparr>w_pc = Returned, w_key = ''a'', w_value = PInt 1, w_new_ctx = 1\<rparr>,
     \<lparr>w_pc = Returned, w_key = ''b'', w_value = PInt 2, w_new_ctx = 2\<rparr>],
    sample_span\<lparr>context_ref := 2,
      dd_span := (dd_span sample_span)\<lparr>dd_calls :=
        [Call_set_tag ''a'' (PInt 1), Call_set_tag ''b'' (PInt 2)]\<rparr>\<rparr>,
    \<lparr>contexts = [\<lparr>ctx_dd_context = 0, ctx_baggage = Map.empty\<rparr>,
                 \<lparr>ctx_dd_context = 0, ctx_baggage = [''a'' \<mapsto> PInt 1]\<rparr>,
                 \<lparr>ctx_dd_context = 0, ctx_baggage = [''a'' \<mapsto> PInt 1, ''b'' \<mapsto> PInt 2]\<rparr>],
     dd_context_count = 1\<rparr>)"
  by (simp add: writer_step_def writer_start_def with_baggage_item_def ctx_at_def
      SpanContext_new_def set_tag_def dd_invoke_def
      sample_OTTags_def sample_span_def sample_store_def DatadogSpan_new_def)

text \<open>A thread that asks for a held lock waits.\<close>

lemma writer_waits_for_lock:
  "lock s \<Longrightarrow> w_pc w = At_line_94 \<Longrightarrow> writer_step T w (s, h) = (w, s, h)"
  by (simp add: writer_step_def)

text \<open>
  Claim C10, on the code. Two threads call \<open>set_baggage_item\<close> on the sample span, one
  with key \<open>a\<close> and one with key \<open>b\<close>. Thread 0 runs line 92, thread 1 runs line 92,
  then thread 0 runs to its return and thread 1 runs to its return. Both have read the
  same context before either assigned its own; the lock covers the assignment of line
  95 only. Both calls return, and the final context holds \<open>b\<close> but not \<open>a\<close>.
\<close>

theorem concurrent_writers_lose_update:
  "run_schedule sample_OTTags [0, 1, 0, 0, 0, 0, 1, 1, 1, 1]
     ([writer_start ''a'' (PInt 1), writer_start ''b'' (PInt 2)], sample_span, sample_store) =
   ([\<lparr>w_pc = Returned, w_key = ''a'', w_value = PInt 1, w_new_ctx = 1\<rparr>,
     \<lparr>w_pc = Returned, w_key = ''b'', w_value = PInt 2, w_new_ctx = 2\<rparr>],
    sample_span\<lparr>context_ref := 2,
      dd_span := (dd_span sample_span)\<lparr>dd_calls :=
        [Call_set_tag ''a'' (PInt 1), Call_set_tag ''b'' (PInt 2)]\<rparr>\<rparr>,
    \<lparr>contexts = [\<lparr>ctx_dd_context = 0, ctx_baggage = Map.empty\<rparr>,
                 \<lparr>ctx_dd_context = 0, ctx_baggage = [''a'' \<mapsto> PInt 1]\<rparr>,
                 \<lparr>ctx_dd_context = 0, ctx_baggage = [''b'' \<mapsto> PInt 2]\<rparr>],
     dd_context_count = 1\<rparr>) \<and>
   get_baggage_item ''a''
     (sample_span\<lparr>context_ref := 2,
        dd_span := (dd_span sample_span)\<lparr>dd_calls :=
          [Call_set_tag ''a'' (PInt 1), Call_set_tag ''b'' (PInt 2)]\<rparr>\<rparr>,
      \<lparr>contexts = [\<lparr>ctx_dd_context = 0, ctx_baggage = Map.empty\<rparr>,
                   \<lparr>ctx_dd_context = 0, ctx_baggage = [''a'' \<mapsto> PInt 1]\<rparr>,
                   \<lparr>ctx_dd_context = 0, ctx_baggage = [''b'' \<mapsto> PInt 2]\<rparr>],
       dd_context_count = 1\<rparr>) = Inr PNone \<and>
   get_baggage_item ''b''
     (sample_span\<lparr>context_ref := 2,
        dd_span := (dd_span sample_span)\<lparr>dd_calls :=
          [Call_set_tag ''a'' (PInt 1), Call_set_tag ''b'' (PInt 2)]\<rparr>\<rparr>,
      \<lparr>contexts = [\<lparr>ctx_dd_context = 0, ctx_baggage = Map.empty\<rparr>,
                   \<lparr>ctx_dd_context = 0, ctx_baggage = [''a'' \<mapsto> PInt 1]\<rparr>,
                   \<lparr>ctx_dd_context = 0, ctx_baggage = [''b'' \<mapsto> PInt 2]\<rparr>],
       dd_context_count = 1\<rparr>) = Inr (PInt 2)"
  by (simp add: writer_step_def writer_start_def with_baggage_item_def ctx_at_def
      SpanContext_new_def set_tag_def dd_invoke_def get_baggage_item_def ctx_get_baggage_item_def
      sample_OTTags_def sample_span_def sample_store_def DatadogSpan_new_def)

end
